theory Spec2Isabelle
  imports Complex_Main "HOL-Library.Word"
begin

unbundle bit_operations_syntax

section \<open>Strings and bytes\<close>

text \<open>
  A JavaScript string is a sequence of UTF-16 code units; a chunk delivered by the
  \<^verbatim>\<open>'data'\<close> event of a socket is a \<^verbatim>\<open>Buffer\<close> of bytes.
\<close>

type_synonym byte = "8 word"
type_synonym jschar = "16 word"
type_synonym jsstring = "jschar list"

text \<open>An ASCII literal of the source as a JavaScript string.\<close>

definition js :: "string \<Rightarrow> jsstring" where
  "js s = map (\<lambda>c. of_nat (of_char c)) s"

definition NL :: jschar where
  "NL = 0x0A"

subsection \<open>\<^verbatim>\<open>Buffer.prototype.toString()\<close>: UTF-8 decoding with replacement\<close>

text \<open>
  \<^verbatim>\<open>data.toString()\<close> decodes the bytes of one chunk as UTF-8, on its own: an
  ill-formed or truncated sequence becomes U+FFFD, and no byte is kept for the next call.
  The decoder is the one of the Encoding standard, which the runtime follows: it keeps the
  code point under construction, the number of continuation bytes still expected and the
  range allowed for the next continuation byte.
\<close>

record utf8_state =
  code_point :: nat
  bytes_needed :: nat
  lower_boundary :: nat
  upper_boundary :: nat

definition utf8_init :: utf8_state where
  "utf8_init = \<lparr>code_point = 0, bytes_needed = 0, lower_boundary = 0x80, upper_boundary = 0xBF\<rparr>"

text \<open>A byte read when no sequence is open: the code points it completes, and the next state.\<close>

definition utf8_lead :: "nat \<Rightarrow> nat list \<times> utf8_state" where
  "utf8_lead b =
     (if b \<le> 0x7F then ([b], utf8_init)
      else if 0xC2 \<le> b \<and> b \<le> 0xDF then
        ([], utf8_init\<lparr>code_point := b mod 0x20, bytes_needed := 1\<rparr>)
      else if 0xE0 \<le> b \<and> b \<le> 0xEF then
        ([], \<lparr>code_point = b mod 0x10, bytes_needed = 2,
              lower_boundary = (if b = 0xE0 then 0xA0 else 0x80),
              upper_boundary = (if b = 0xED then 0x9F else 0xBF)\<rparr>)
      else if 0xF0 \<le> b \<and> b \<le> 0xF4 then
        ([], \<lparr>code_point = b mod 0x08, bytes_needed = 3,
              lower_boundary = (if b = 0xF0 then 0x90 else 0x80),
              upper_boundary = (if b = 0xF4 then 0x8F else 0xBF)\<rparr>)
      else ([0xFFFD], utf8_init))"

fun utf8_decode :: "utf8_state \<Rightarrow> nat list \<Rightarrow> nat list" where
  "utf8_decode st [] = (if bytes_needed st = 0 then [] else [0xFFFD])"
| "utf8_decode st (b # bs) =
     (if bytes_needed st = 0 then
        (case utf8_lead b of (out, st') \<Rightarrow> out @ utf8_decode st' bs)
      else if b < lower_boundary st \<or> upper_boundary st < b then
        (case utf8_lead b of (out, st') \<Rightarrow> 0xFFFD # out @ utf8_decode st' bs)
      else if bytes_needed st = 1 then
        (code_point st * 0x40 + b mod 0x40) # utf8_decode utf8_init bs
      else
        utf8_decode \<lparr>code_point = code_point st * 0x40 + b mod 0x40,
                     bytes_needed = bytes_needed st - 1,
                     lower_boundary = 0x80, upper_boundary = 0xBF\<rparr> bs)"

text \<open>A code point as UTF-16 code units: a surrogate pair above the basic plane.\<close>

definition utf16_units :: "nat \<Rightarrow> jsstring" where
  "utf16_units cp =
     (if cp < 0x10000 then [of_nat cp]
      else [of_nat (0xD800 + (cp - 0x10000) div 0x400),
            of_nat (0xDC00 + (cp - 0x10000) mod 0x400)])"

definition toString :: "byte list \<Rightarrow> jsstring" where
  "toString data = concat (map utf16_units (utf8_decode utf8_init (map unat data)))"

subsection \<open>\<^verbatim>\<open>String.prototype.split('\n')\<close> and \<^verbatim>\<open>trim()\<close>\<close>

text \<open>
  \<^verbatim>\<open>s.split('\n')\<close> returns the pieces between the newlines, empty ones included;
  the array is never empty (\<^verbatim>\<open>''.split('\n')\<close> is \<^verbatim>\<open>['']\<close>).
\<close>

fun split_nl :: "jsstring \<Rightarrow> jsstring list" where
  "split_nl [] = [[]]"
| "split_nl (c # cs) =
     (if c = NL then [] # split_nl cs
      else (case split_nl cs of [] \<Rightarrow> [[c]] | piece # pieces \<Rightarrow> (c # piece) # pieces))"

text \<open>The white space and line terminators that \<^verbatim>\<open>trim()\<close> removes.\<close>

definition is_space :: "jschar \<Rightarrow> bool" where
  "is_space c =
     (c = 0x09 \<or> c = 0x0A \<or> c = 0x0B \<or> c = 0x0C \<or> c = 0x0D \<or> c = 0x20 \<or> c = 0xA0
      \<or> c = 0x1680 \<or> (0x2000 \<le> c \<and> c \<le> 0x200A) \<or> c = 0x2028 \<or> c = 0x2029
      \<or> c = 0x202F \<or> c = 0x205F \<or> c = 0x3000 \<or> c = 0xFEFF)"

definition trim :: "jsstring \<Rightarrow> jsstring" where
  "trim s = rev (dropWhile is_space (rev (dropWhile is_space s)))"

subsection \<open>The read buffer of a connection\<close>

text \<open>
  Lines 285 to 289 of \<^verbatim>\<open>rpc-server/server.js\<close>:
  \<^verbatim>\<open>buffer += data.toString(); const messages = buffer.split('\n'); buffer = messages.pop();\<close>
  The result is the array \<^verbatim>\<open>messages\<close> after the \<^verbatim>\<open>pop\<close> and the new buffer.
\<close>

definition take_messages :: "jsstring \<Rightarrow> byte list \<Rightarrow> jsstring list \<times> jsstring" where
  "take_messages buffer data =
     (let messages = split_nl (buffer @ toString data)
      in (butlast messages, last messages))"

text \<open>The complete messages of a sequence of chunks fed in order, and the buffer left.\<close>

fun feed :: "jsstring \<Rightarrow> byte list list \<Rightarrow> jsstring list \<times> jsstring" where
  "feed buffer [] = ([], buffer)"
| "feed buffer (data # chunks) =
     (case take_messages buffer data of (messages, buffer') \<Rightarrow>
        (case feed buffer' chunks of (later, final) \<Rightarrow> (messages @ later, final)))"

section \<open>JavaScript values\<close>

text \<open>
  The values \<^verbatim>\<open>JSON.parse\<close> produces, and \<^verbatim>\<open>undefined\<close>, which reading a
  missing property gives. An object is the list of its own properties, each name once. A
  number is the real it denotes; no property below depends on how numbers are rounded.
\<close>

datatype jsval =
    JUndefined
  | JNull
  | JBool bool
  | JNum real
  | JStr jsstring
  | JArr "jsval list"
  | JObj "(jsstring \<times> jsval) list"

text \<open>What \<^verbatim>\<open>throw\<close> raises; \<^verbatim>\<open>error.message\<close> is the text carried.\<close>

datatype exn = TypeError jsstring | Error jsstring

fun message :: "exn \<Rightarrow> jsstring" where
  "message (TypeError m) = m"
| "message (Error m) = m"

definition and_then :: "exn + 'a \<Rightarrow> ('a \<Rightarrow> exn + 'b) \<Rightarrow> exn + 'b" where
  "and_then r f = (case r of Inl e \<Rightarrow> Inl e | Inr v \<Rightarrow> f v)"

fun truthy :: "jsval \<Rightarrow> bool" where
  "truthy JUndefined = False"
| "truthy JNull = False"
| "truthy (JBool b) = b"
| "truthy (JNum r) = (r \<noteq> 0)"
| "truthy (JStr s) = (s \<noteq> [])"
| "truthy (JArr xs) = True"
| "truthy (JObj fs) = True"

text \<open>
  The property read \<^verbatim>\<open>v.k\<close>, for the names \<^verbatim>\<open>server.js\<close> reads (\<^verbatim>\<open>header\<close>,
  \<^verbatim>\<open>body\<close>, \<^verbatim>\<open>method\<close>, \<^verbatim>\<open>auth_token\<close>, \<^verbatim>\<open>request_id\<close>, \<^verbatim>\<open>filename\<close>,
  \<^verbatim>\<open>content\<close>, \<^verbatim>\<open>user_id\<close>, \<^verbatim>\<open>length\<close>): none of them is an index or a member
  of a prototype other than \<^verbatim>\<open>length\<close>. Reading a property of \<^verbatim>\<open>undefined\<close> or
  \<^verbatim>\<open>null\<close> throws.
\<close>

fun get :: "jsval \<Rightarrow> jsstring \<Rightarrow> exn + jsval" where
  "get JUndefined k =
     Inl (TypeError (js ''Cannot read properties of undefined (reading '' @ [0x27] @ k @ [0x27] @ js '')''))"
| "get JNull k =
     Inl (TypeError (js ''Cannot read properties of null (reading '' @ [0x27] @ k @ [0x27] @ js '')''))"
| "get (JBool b) k = Inr JUndefined"
| "get (JNum r) k = Inr JUndefined"
| "get (JStr s) k = Inr (if k = js ''length'' then JNum (of_nat (length s)) else JUndefined)"
| "get (JArr xs) k = Inr (if k = js ''length'' then JNum (of_nat (length xs)) else JUndefined)"
| "get (JObj fs) k = Inr (case map_of fs k of None \<Rightarrow> JUndefined | Some v \<Rightarrow> v)"

text \<open>
  \<^verbatim>\<open>payload.content.substring(0, 50)\<close>: only a string has a callable
  \<^verbatim>\<open>substring\<close>.
\<close>

fun substring_0_50 :: "jsval \<Rightarrow> exn + jsval" where
  "substring_0_50 (JStr s) = Inr (JStr (take 50 s))"
| "substring_0_50 JUndefined =
     Inl (TypeError (js ''Cannot read properties of undefined (reading '' @ [0x27] @ js ''substring'' @ [0x27] @ js '')''))"
| "substring_0_50 JNull =
     Inl (TypeError (js ''Cannot read properties of null (reading '' @ [0x27] @ js ''substring'' @ [0x27] @ js '')''))"
| "substring_0_50 v = Inl (TypeError (js ''payload.content.substring is not a function''))"

text \<open>
  The conversion to a string that a template literal \<^verbatim>\<open>`${v}`\<close> performs. The text of
  a number is the runtime's (\<open>num\<close>). An array joins the texts of its elements with
  commas, \<^verbatim>\<open>null\<close> and \<^verbatim>\<open>undefined\<close> elements giving the empty text. An object
  prints as \<^verbatim>\<open>[object Object]\<close>, unless it has a property \<^verbatim>\<open>toString\<close> of its own:
  a parsed value is never callable, and the conversion throws.
\<close>

fun join_comma :: "(exn + jsstring) list \<Rightarrow> exn + jsstring" where
  "join_comma [] = Inr []"
| "join_comma [r] = r"
| "join_comma (r # rs) =
     (case r of Inl e \<Rightarrow> Inl e
      | Inr t \<Rightarrow> (case join_comma rs of Inl e \<Rightarrow> Inl e | Inr ts \<Rightarrow> Inr (t @ js '','' @ ts)))"

fun to_string :: "(real \<Rightarrow> jsstring) \<Rightarrow> jsval \<Rightarrow> exn + jsstring" where
  "to_string num JUndefined = Inr (js ''undefined'')"
| "to_string num JNull = Inr (js ''null'')"
| "to_string num (JBool b) = Inr (if b then js ''true'' else js ''false'')"
| "to_string num (JNum r) = Inr (num r)"
| "to_string num (JStr s) = Inr s"
| "to_string num (JArr xs) =
     join_comma (map (\<lambda>x. if x = JNull \<or> x = JUndefined then Inr [] else to_string num x) xs)"
| "to_string num (JObj fs) =
     (case map_of fs (js ''toString'') of
        None \<Rightarrow> Inr (js ''[object Object]'')
      | Some v \<Rightarrow> Inl (TypeError (js ''Cannot convert object to primitive value'')))"

section \<open>The server state\<close>

text \<open>
  What the runtime supplies: \<^verbatim>\<open>JSON.parse\<close> (\<open>None\<close> when it throws), the text of a
  number, and the readings of \<^verbatim>\<open>Date.now()\<close>, \<^verbatim>\<open>new Date().toISOString()\<close> and
  \<^verbatim>\<open>Math.random()\<close> at the time a callback runs, one reading for the callback.
\<close>

record env =
  JSON_parse :: "jsstring \<Rightarrow> jsval option"
  Number_toString :: "real \<Rightarrow> jsstring"
  Date_now :: nat
  Date_toISOString :: jsstring
  Math_random :: real

text \<open>
  The object \<^verbatim>\<open>createResponse\<close> serialises; what is written on the socket is
  \<^verbatim>\<open>JSON.stringify\<close> of it followed by one newline. The parameter \<^verbatim>\<open>requestId\<close>
  defaults to \<^verbatim>\<open>null\<close> when the argument is missing or \<^verbatim>\<open>undefined\<close>.
\<close>

record response =
  status :: jsstring
  result :: jsval
  request_id :: jsval
  timestamp :: nat

definition createResponse :: "env \<Rightarrow> jsstring \<Rightarrow> jsval \<Rightarrow> jsval \<Rightarrow> response" where
  "createResponse env st res requestId =
     \<lparr>status = st, result = res,
      request_id = (if requestId = JUndefined then JNull else requestId),
      timestamp = Date_now env\<rparr>"

text \<open>
  The object pushed on \<^verbatim>\<open>processingQueue\<close>: \<open>rpc_method\<close> is its field
  \<^verbatim>\<open>method\<close>, and \<open>socket\<close> names the connection.
\<close>

record job =
  rpc_method :: jsval
  payload :: jsval
  requestId :: jsval
  socket :: nat
  receivedAt :: nat

text \<open>
  A connection: the closure variable \<^verbatim>\<open>buffer\<close>, whether the server called
  \<^verbatim>\<open>socket.end()\<close>, \<^verbatim>\<open>socket.destroyed\<close>, and the arguments of every
  \<^verbatim>\<open>socket.write\<close> in order.
\<close>

record connection =
  buffer :: jsstring
  ended :: bool
  destroyed :: bool
  written :: "response list"

text \<open>
  An invocation of \<^verbatim>\<open>processQueue\<close> that passed the guard and is suspended at an
  \<^verbatim>\<open>await\<close>: on the 50 ms timer, or inside \<^verbatim>\<open>executeMethod\<close> on the mutation
  \<^verbatim>\<open>uploads:logUpload\<close> with its argument.
\<close>

datatype worker = AwaitTimer job | AwaitMutation job jsval

fun job_of :: "worker \<Rightarrow> job" where
  "job_of (AwaitTimer j) = j"
| "job_of (AwaitMutation j args) = j"

text \<open>The operations performed on \<^verbatim>\<open>processingQueue\<close>, in order.\<close>

datatype queue_op = Push job | Shift job

record server =
  processingQueue :: "job list"
  isProcessing :: bool
  totalReceived :: nat
  totalProcessed :: nat
  totalErrors :: nat
  startTime :: nat
  sockets :: "nat \<Rightarrow> connection"
  workers :: "worker list"
  immediates :: nat
  uploads :: "jsval list"
  history :: "queue_op list"

definition new_connection :: connection where
  "new_connection = \<lparr>buffer = [], ended = False, destroyed = False, written = []\<rparr>"

definition initial :: "nat \<Rightarrow> server" where
  "initial t =
     \<lparr>processingQueue = [], isProcessing = False, totalReceived = 0, totalProcessed = 0,
      totalErrors = 0, startTime = t, sockets = (\<lambda>c. new_connection), workers = [],
      immediates = 0, uploads = [], history = []\<rparr>"

definition socket_write :: "nat \<Rightarrow> response \<Rightarrow> server \<Rightarrow> server" where
  "socket_write c r s =
     s\<lparr>sockets := (sockets s)(c := (sockets s c)\<lparr>written := written (sockets s c) @ [r]\<rparr>)\<rparr>"

definition socket_end :: "nat \<Rightarrow> server \<Rightarrow> server" where
  "socket_end c s = s\<lparr>sockets := (sockets s)(c := (sockets s c)\<lparr>ended := True\<rparr>)\<rparr>"

definition socket_destroy :: "nat \<Rightarrow> server \<Rightarrow> server" where
  "socket_destroy c s = s\<lparr>sockets := (sockets s)(c := (sockets s c)\<lparr>destroyed := True\<rparr>)\<rparr>"

definition AUTH_TOKEN :: jsstring where
  "AUTH_TOKEN = js ''SECRET_123''"

definition UPLOAD_FILE :: jsstring where
  "UPLOAD_FILE = js ''UPLOAD_FILE''"

definition LIST_FILES :: jsstring where
  "LIST_FILES = js ''LIST_FILES''"

definition DELETE_FILE :: jsstring where
  "DELETE_FILE = js ''DELETE_FILE''"

definition CHECK_BALANCE :: jsstring where
  "CHECK_BALANCE = js ''CHECK_BALANCE''"

definition PING :: jsstring where
  "PING = js ''PING''"

section \<open>Method dispatch: \<^verbatim>\<open>executeMethod\<close>\<close>

text \<open>
  The object literal passed to \<^verbatim>\<open>convex.mutation("uploads:logUpload", ...)\<close>
  (lines 166 to 169); it is evaluated inside the \<^verbatim>\<open>try\<close>.
\<close>

definition upload_args :: "jsval \<Rightarrow> exn + jsval" where
  "upload_args body =
     and_then (get body (js ''filename'')) (\<lambda>filename.
     and_then (get body (js ''content'')) (\<lambda>content.
     and_then (if truthy content then get content (js ''length'') else Inr (JNum 0)) (\<lambda>fileSize.
     and_then (if truthy content then substring_0_50 content else Inr (JStr [])) (\<lambda>contentPreview.
       Inr (JObj [(js ''filename'', filename), (js ''fileSize'', fileSize),
                  (js ''contentPreview'', contentPreview),
                  (js ''status'', JStr (js ''completed''))])))))"

text \<open>The value returned for \<^verbatim>\<open>UPLOAD_FILE\<close> (lines 176 to 181).\<close>

definition upload_result :: "env \<Rightarrow> jsval \<Rightarrow> exn + jsval" where
  "upload_result env body =
     and_then (get body (js ''filename'')) (\<lambda>filename.
     and_then (get body (js ''content'')) (\<lambda>content.
     and_then (if truthy content then get content (js ''length'') else Inr (JNum 0)) (\<lambda>size.
       Inr (JObj [(js ''message'', JStr (js ''File uploaded successfully'')),
                  (js ''filename'', filename), (js ''size'', size),
                  (js ''storedAt'', JStr (Date_toISOString env))]))))"

text \<open>
  \<^verbatim>\<open>executeMethod\<close> up to its first suspension: it has settled (returned a value or
  thrown), or it awaits the mutation with the given argument. The balance is the floor of
  the exact product, where the code floors the rounded product of two doubles, and the
  times in a result are the one reading of the callback; no property below speaks of
  these numbers.
\<close>

datatype outcome = Settled "exn + jsval" | Await jsval

definition executeMethod :: "env \<Rightarrow> nat \<Rightarrow> jsval \<Rightarrow> jsval \<Rightarrow> outcome" where
  "executeMethod env start meth body =
     (case to_string (Number_toString env) meth of
        Inl e \<Rightarrow> Settled (Inl e)
      | Inr name \<Rightarrow>
          if meth = JStr UPLOAD_FILE then
            (case and_then (get body (js ''filename'')) (to_string (Number_toString env)) of
               Inl e \<Rightarrow> Settled (Inl e)
             | Inr shown \<Rightarrow>
                 (case upload_args body of
                    Inl err \<Rightarrow> Settled (upload_result env body)
                  | Inr args \<Rightarrow> Await args))
          else if meth = JStr LIST_FILES then
            Settled (Inr (JObj
              [(js ''files'', JArr [JObj [(js ''name'', JStr (js ''example.txt'')),
                                           (js ''size'', JNum 1024),
                                           (js ''modified'', JNum (of_nat (Date_now env)))]]),
               (js ''message'', JStr (js ''Files retrieved from RPC server''))]))
          else if meth = JStr DELETE_FILE then
            Settled (and_then (get body (js ''filename'')) (\<lambda>filename.
              Inr (JObj [(js ''message'', JStr (js ''File deleted successfully'')),
                         (js ''filename'', filename),
                         (js ''deletedAt'', JStr (Date_toISOString env))])))
          else if meth = JStr CHECK_BALANCE then
            Settled (and_then (get body (js ''user_id'')) (\<lambda>user_id.
              Inr (JObj [(js ''user_id'', user_id),
                         (js ''balance'', JNum (of_int \<lfloor>Math_random env * 10000\<rfloor>)),
                         (js ''currency'', JStr (js ''USD''))])))
          else if meth = JStr PING then
            Settled (Inr (JObj
              [(js ''pong'', JBool True),
               (js ''serverTime'', JNum (of_nat (Date_now env))),
               (js ''uptime'', JNum ((of_nat (Date_now env) - of_nat start) / 1000))]))
          else Settled (Inl (Error (js ''Unknown method: '' @ name))))"

section \<open>The worker: \<^verbatim>\<open>processQueue\<close>\<close>

text \<open>
  Lines 93 to 110: the guard, the flag, the \<^verbatim>\<open>shift\<close>, the log line and the
  suspension on the timer. The log line prints \<^verbatim>\<open>job.method\<close> outside the
  \<^verbatim>\<open>try\<close>: were the conversion to throw, the promise would reject with the flag
  still set.
\<close>

definition processQueue :: "env \<Rightarrow> server \<Rightarrow> server" where
  "processQueue env s =
     (if isProcessing s \<or> processingQueue s = [] then s
      else
        (case processingQueue s of
           [] \<Rightarrow> s
         | j # rest \<Rightarrow>
             (let s1 = s\<lparr>isProcessing := True, processingQueue := rest,
                         history := history s @ [Shift j]\<rparr>
              in case to_string (Number_toString env) (rpc_method j) of
                   Inl e \<Rightarrow> s1
                 | Inr name \<Rightarrow> s1\<lparr>workers := workers s1 @ [AwaitTimer j]\<rparr>)))"

text \<open>Lines 135 and 138: the flag is cleared and \<^verbatim>\<open>processQueue\<close> is scheduled.\<close>

definition ready_for_next :: "server \<Rightarrow> server" where
  "ready_for_next s = s\<lparr>isProcessing := False, immediates := immediates s + 1\<rparr>"

text \<open>The \<^verbatim>\<open>catch\<close> block of \<^verbatim>\<open>processQueue\<close> (lines 124 to 132) and what follows it.\<close>

definition on_error :: "env \<Rightarrow> job \<Rightarrow> exn \<Rightarrow> server \<Rightarrow> server" where
  "on_error env j error s =
     (let s1 = s\<lparr>totalErrors := totalErrors s + 1\<rparr>
      in case to_string (Number_toString env) (rpc_method j) of
           Inl e \<Rightarrow> s1
         | Inr name \<Rightarrow>
             ready_for_next
               (if \<not> destroyed (sockets s1 (socket j))
                then socket_write (socket j)
                       (createResponse env (js ''ERROR'') (JStr (message error)) (requestId j)) s1
                else s1))"

text \<open>
  What \<^verbatim>\<open>processQueue\<close> does once \<^verbatim>\<open>executeMethod\<close> has settled (lines 113 to
  138): the response is written unless the socket is destroyed.
\<close>

definition settle :: "env \<Rightarrow> job \<Rightarrow> exn + jsval \<Rightarrow> server \<Rightarrow> server" where
  "settle env j r s =
     (case r of
        Inl error \<Rightarrow> on_error env j error s
      | Inr res \<Rightarrow>
          (let s1 = (if \<not> destroyed (sockets s (socket j))
                     then socket_write (socket j)
                            (createResponse env (js ''OK'') res (requestId j)) s
                     else s);
               s2 = s1\<lparr>totalProcessed := totalProcessed s1 + 1\<rparr>
           in case to_string (Number_toString env) (rpc_method j) of
                Inl e \<Rightarrow> on_error env j e s2
              | Inr name \<Rightarrow> ready_for_next s2))"

definition remove_worker :: "nat \<Rightarrow> server \<Rightarrow> server" where
  "remove_worker i s = s\<lparr>workers := take i (workers s) @ drop (Suc i) (workers s)\<rparr>"

text \<open>The timer of worker \<open>i\<close> has fired: line 113 calls \<^verbatim>\<open>executeMethod\<close>.\<close>

definition after_timer :: "env \<Rightarrow> nat \<Rightarrow> job \<Rightarrow> server \<Rightarrow> server" where
  "after_timer env i j s =
     (case executeMethod env (startTime s) (rpc_method j) (payload j) of
        Settled r \<Rightarrow> settle env j r (remove_worker i s)
      | Await args \<Rightarrow> s\<lparr>workers := (workers s)[i := AwaitMutation j args]\<rparr>)"

text \<open>
  The mutation of worker \<open>i\<close> has resolved (\<open>ok\<close>) or rejected with an error: a
  rejection is caught and logged (lines 171 to 174), and \<^verbatim>\<open>executeMethod\<close> returns
  its value either way. The audit store holds the arguments of the mutations that resolved.
\<close>

definition after_mutation :: "env \<Rightarrow> nat \<Rightarrow> job \<Rightarrow> jsval \<Rightarrow> bool \<Rightarrow> server \<Rightarrow> server" where
  "after_mutation env i j args ok s =
     settle env j (upload_result env (payload j))
       (remove_worker i (if ok then s\<lparr>uploads := uploads s @ [args]\<rparr> else s))"

section \<open>The listener: the \<^verbatim>\<open>'data'\<close> handler\<close>

text \<open>
  \<^verbatim>\<open>parseMessage\<close> of \<^verbatim>\<open>protocol.js\<close>: \<^verbatim>\<open>JSON.parse\<close> of the trimmed text, any
  failure rethrown as one error.
\<close>

definition parseMessage :: "env \<Rightarrow> jsstring \<Rightarrow> exn + jsval" where
  "parseMessage env rawData =
     (case JSON_parse env (trim rawData) of
        None \<Rightarrow> Inl (Error (js ''Failed to unmarshal message: Invalid JSON''))
      | Some v \<Rightarrow> Inr v)"

text \<open>
  The body of the \<^verbatim>\<open>try\<close> for one message (lines 300 to 339), \<open>get2 v a b\<close> being
  the read \<^verbatim>\<open>v.a.b\<close>. Line 302 prints \<^verbatim>\<open>message.header.method\<close> before the token
  is checked. The flag returned says whether the handler executed \<^verbatim>\<open>return\<close>.
  Nothing is changed before the last statement that can throw, so an exception leaves the
  state as it was.
\<close>

definition get2 :: "jsval \<Rightarrow> jsstring \<Rightarrow> jsstring \<Rightarrow> exn + jsval" where
  "get2 v a b = and_then (get v a) (\<lambda>w. get w b)"

definition try_message :: "env \<Rightarrow> nat \<Rightarrow> jsstring \<Rightarrow> server \<Rightarrow> exn + (server \<times> bool)" where
  "try_message env c rawMessage s =
     and_then (parseMessage env rawMessage) (\<lambda>msg.
     and_then (get2 msg (js ''header'') (js ''method'')) (\<lambda>logged.
     and_then (to_string (Number_toString env) logged) (\<lambda>shown.
     and_then (get2 msg (js ''header'') (js ''auth_token'')) (\<lambda>auth_token.
       if auth_token \<noteq> JStr AUTH_TOKEN then
         and_then (get2 msg (js ''header'') (js ''request_id'')) (\<lambda>rid.
           Inr (socket_end c
                  (socket_write c
                     (createResponse env (js ''ERROR'') (JStr (js ''Unauthorized'')) rid) s),
                True))
       else
         and_then (get2 msg (js ''header'') (js ''method'')) (\<lambda>meth.
         and_then (get msg (js ''body'')) (\<lambda>body.
         and_then (get2 msg (js ''header'') (js ''request_id'')) (\<lambda>rid.
           (let j = \<lparr>rpc_method = meth, payload = body, requestId = rid, socket = c,
                     receivedAt = Date_now env\<rparr>
            in Inr (processQueue env
                      (s\<lparr>processingQueue := processingQueue s @ [j],
                         history := history s @ [Push j]\<rparr>),
                    False)))))))))"

text \<open>One message with its \<^verbatim>\<open>catch\<close> (lines 341 to 345).\<close>

definition handle_message :: "env \<Rightarrow> nat \<Rightarrow> jsstring \<Rightarrow> server \<Rightarrow> server \<times> bool" where
  "handle_message env c rawMessage s =
     (case try_message env c rawMessage s of
        Inr r \<Rightarrow> r
      | Inl error \<Rightarrow>
          (socket_write c
             (createResponse env (js ''ERROR'') (JStr (js ''Invalid message format'')) JUndefined)
             (s\<lparr>totalErrors := totalErrors s + 1\<rparr>),
           False))"

text \<open>The loop over \<^verbatim>\<open>messages\<close> (lines 291 to 346).\<close>

fun handle_messages :: "env \<Rightarrow> nat \<Rightarrow> jsstring list \<Rightarrow> server \<Rightarrow> server" where
  "handle_messages env c [] s = s"
| "handle_messages env c (rawMessage # rest) s =
     (if trim rawMessage = [] then handle_messages env c rest s
      else
        (case handle_message env c rawMessage s of
           (s', returned) \<Rightarrow> if returned then s' else handle_messages env c rest s'))"

text \<open>The handler of \<^verbatim>\<open>'data'\<close> on connection \<open>c\<close> (lines 281 to 347).\<close>

definition on_data :: "env \<Rightarrow> nat \<Rightarrow> byte list \<Rightarrow> server \<Rightarrow> server" where
  "on_data env c data s =
     (let s1 = s\<lparr>totalReceived := totalReceived s + 1\<rparr>
      in case take_messages (buffer (sockets s1 c)) data of
           (messages, rest) \<Rightarrow>
             handle_messages env c messages
               (s1\<lparr>sockets := (sockets s1)(c := (sockets s1 c)\<lparr>buffer := rest\<rparr>)\<rparr>))"

section \<open>The event loop\<close>

text \<open>
  What the runtime can deliver: bytes on a connection, the idle timeout of a connection,
  the destruction of a socket (the peer closed, or the transport failed), a callback
  scheduled by \<^verbatim>\<open>setImmediate\<close>, the 50 ms timer of a suspended worker, and the
  settlement of the mutation a worker awaits. A delivery that cannot happen in the state
  changes nothing. No \<^verbatim>\<open>'data'\<close> event is emitted on a destroyed socket.
\<close>

datatype input =
    Data nat "byte list"
  | SocketTimeout nat
  | SocketClosed nat
  | Immediate
  | TimerFired nat
  | MutationSettled nat bool

fun deliver :: "env \<Rightarrow> input \<Rightarrow> server \<Rightarrow> server" where
  "deliver env (Data c data) s = (if destroyed (sockets s c) then s else on_data env c data s)"
| "deliver env (SocketTimeout c) s = socket_end c s"
| "deliver env (SocketClosed c) s = socket_destroy c s"
| "deliver env Immediate s =
     (if immediates s = 0 then s else processQueue env (s\<lparr>immediates := immediates s - 1\<rparr>))"
| "deliver env (TimerFired i) s =
     (if i < length (workers s) then
        (case workers s ! i of
           AwaitTimer j \<Rightarrow> after_timer env i j s
         | AwaitMutation j args \<Rightarrow> s)
      else s)"
| "deliver env (MutationSettled i ok) s =
     (if i < length (workers s) then
        (case workers s ! i of
           AwaitTimer j \<Rightarrow> s
         | AwaitMutation j args \<Rightarrow> after_mutation env i j args ok s)
      else s)"

text \<open>A run: the deliveries in order, each with the runtime's readings at that time.\<close>

fun run :: "(env \<times> input) list \<Rightarrow> server \<Rightarrow> server" where
  "run [] s = s"
| "run ((env, ev) # evs) s = run evs (deliver env ev s)"

section \<open>Vocabulary of the properties\<close>

text \<open>The bytes of an ASCII text, and a sequence of messages each followed by its terminator.\<close>

definition ascii :: "string \<Rightarrow> byte list" where
  "ascii s = map (\<lambda>c. of_nat (of_char c)) s"

definition frames :: "jsstring list \<Rightarrow> jsstring" where
  "frames ms = concat (map (\<lambda>m. m @ [NL]) ms)"

text \<open>
  An upload request whose file name is \<^verbatim>\<open>caf\<close>, U+00E9, \<^verbatim>\<open>.txt\<close>: the text before
  and the text after the accented letter, which is the two bytes C3 A9 on the wire.
\<close>

definition upload_head :: string where
  \<open>upload_head = ''{"header":{"auth_token":"SECRET_123","method":"UPLOAD_FILE","timestamp":0,"request_id":"r1"},"body":{"filename":"caf''\<close>

definition upload_tail :: string where
  \<open>upload_tail = ''.txt","content":"x"}}''\<close>

text \<open>The methods registered in \<^verbatim>\<open>RPC_METHODS\<close> of \<^verbatim>\<open>protocol.js\<close>.\<close>

definition RPC_METHODS :: "jsstring list" where
  "RPC_METHODS = [UPLOAD_FILE, LIST_FILES, DELETE_FILE, CHECK_BALANCE, PING]"

text \<open>
  The jobs pushed on the queue and the jobs shifted from it, each in the order of the
  operations.
\<close>

fun pushed :: "queue_op list \<Rightarrow> job list" where
  "pushed [] = []"
| "pushed (Push j # h) = j # pushed h"
| "pushed (Shift j # h) = pushed h"

fun shifted :: "queue_op list \<Rightarrow> job list" where
  "shifted [] = []"
| "shifted (Push j # h) = shifted h"
| "shifted (Shift j # h) = j # shifted h"

text \<open>
  The invariants of the dispatcher: at most one suspended invocation of
  \<^verbatim>\<open>processQueue\<close>, and the flag set while there is one; the jobs shifted so far,
  followed by the queue, are the jobs pushed so far.
\<close>

definition one_worker :: "server \<Rightarrow> bool" where
  "one_worker s = (length (workers s) \<le> 1 \<and> (workers s = [] \<or> isProcessing s))"

definition in_order :: "server \<Rightarrow> bool" where
  "in_order s = (shifted (history s) @ processingQueue s = pushed (history s))"

text \<open>The state without what was written on the sockets and without the error counter.\<close>

definition core :: "server \<Rightarrow> server" where
  "core s = s\<lparr>totalErrors := 0, sockets := (\<lambda>c. (sockets s c)\<lparr>written := []\<rparr>)\<rparr>"

text \<open>
  A worker that awaits the mutation got there from an \<^verbatim>\<open>UPLOAD_FILE\<close> job, with the
  argument computed from the job's body.
\<close>

fun awaited :: "worker \<Rightarrow> bool" where
  "awaited (AwaitTimer j) = True"
| "awaited (AwaitMutation j args) =
     (rpc_method j = JStr UPLOAD_FILE \<and> upload_args (payload j) = Inr args)"

text \<open>The state of the dispatcher and the counters: everything but the sockets.\<close>

definition inner ::
  "server \<Rightarrow> (job list \<times> bool \<times> worker list \<times> nat \<times> jsval list \<times> queue_op list) \<times> (nat \<times> nat \<times> nat \<times> nat)" where
  "inner s =
     ((processingQueue s, isProcessing s, workers s, immediates s, uploads s, history s),
      (totalReceived s, totalProcessed s, totalErrors s, startTime s))"

text \<open>
  Example requests: the parsed value of a request, the texts of four requests as they
  travel, and a runtime whose \<^verbatim>\<open>JSON.parse\<close> is given on these texts (it throws on
  any other); the examples print no number.
\<close>

definition request :: "string \<Rightarrow> string \<Rightarrow> string \<Rightarrow> jsval \<Rightarrow> jsval" where
  "request token name rid body =
     JObj [(js ''header'', JObj [(js ''auth_token'', JStr (js token)), (js ''method'', JStr (js name)),
                                 (js ''timestamp'', JNum 0), (js ''request_id'', JStr (js rid))]),
           (js ''body'', body)]"

definition ping_text :: string where
  \<open>ping_text = ''{"header":{"auth_token":"SECRET_123","method":"PING","timestamp":0,"request_id":"r1"},"body":{}}''\<close>

definition nope_text :: string where
  \<open>nope_text = ''{"header":{"auth_token":"SECRET_123","method":"NOPE","timestamp":0,"request_id":"r2"},"body":{}}''\<close>

definition intruder_text :: string where
  \<open>intruder_text = ''{"header":{"auth_token":"GUESS","method":"PING","timestamp":0,"request_id":"r3"},"body":{}}''\<close>

definition upload_text :: string where
  \<open>upload_text = ''{"header":{"auth_token":"SECRET_123","method":"UPLOAD_FILE","timestamp":0,"request_id":"r4"},"body":{"filename":"a.txt","content":"hello"}}''\<close>

definition demo_parse :: "jsstring \<Rightarrow> jsval option" where
  "demo_parse = map_of
     [(js ping_text, request ''SECRET_123'' ''PING'' ''r1'' (JObj [])),
      (js nope_text, request ''SECRET_123'' ''NOPE'' ''r2'' (JObj [])),
      (js intruder_text, request ''GUESS'' ''PING'' ''r3'' (JObj [])),
      (js upload_text, request ''SECRET_123'' ''UPLOAD_FILE'' ''r4''
         (JObj [(js ''filename'', JStr (js ''a.txt'')), (js ''content'', JStr (js ''hello''))]))]"

definition demo_env :: "nat \<Rightarrow> env" where
  "demo_env t =
     \<lparr>JSON_parse = demo_parse, Number_toString = (\<lambda>r. js ''0''), Date_now = t,
      Date_toISOString = js ''2026-01-01T00:00:00.000Z'', Math_random = 0\<rparr>"

text \<open>The jobs of the upload request and of the request for the method \<^verbatim>\<open>NOPE\<close>.\<close>

definition upload_job :: job where
  "upload_job =
     \<lparr>rpc_method = JStr (js ''UPLOAD_FILE''),
      payload = JObj [(js ''filename'', JStr (js ''a.txt'')), (js ''content'', JStr (js ''hello''))],
      requestId = JStr (js ''r4''), socket = 0, receivedAt = 1\<rparr>"

definition nope_job :: job where
  "nope_job =
     \<lparr>rpc_method = JStr (js ''NOPE''), payload = JObj [], requestId = JStr (js ''r2''),
      socket = 0, receivedAt = 1\<rparr>"




section \<open>Properties of the frame codec\<close>

lemma split_nl_nonempty: "split_nl s \<noteq> []"
  by (induction s) (auto split: list.splits)

text \<open>Splitting a text in two parts: the last piece of the first part is carried over.\<close>

lemma split_nl_append:
  "split_nl (x @ y) = butlast (split_nl x) @ split_nl (last (split_nl x) @ y)"
proof (induction x)
  case Nil
  then show ?case by simp
next
  case (Cons c x)
  show ?case
  proof (cases "c = NL")
    case True
    then show ?thesis using Cons split_nl_nonempty[of x] by simp
  next
    case False
    obtain p ps where sx: "split_nl x = p # ps"
      using split_nl_nonempty[of x] by (cases "split_nl x") auto
    obtain q qs where sxy: "split_nl (x @ y) = q # qs"
      using split_nl_nonempty[of "x @ y"] by (cases "split_nl (x @ y)") auto
    show ?thesis
    proof (cases ps)
      case Nil
      then show ?thesis using False Cons sx sxy by simp
    next
      case (Cons p' ps')
      then show ?thesis using False Cons.IH sx sxy by (auto split: list.splits)
    qed
  qed
qed

lemma split_nl_plain: "NL \<notin> set r \<Longrightarrow> split_nl r = [r]"
  by (induction r) auto

lemma last_split_nl_plain: "NL \<notin> set (last (split_nl s))"
proof (induction s)
  case Nil
  then show ?case by simp
next
  case (Cons c s)
  then show ?case using split_nl_nonempty[of s]
    by (cases "split_nl s") (auto split: list.splits)
qed

lemma split_nl_frame: "NL \<notin> set m \<Longrightarrow> split_nl (m @ NL # t) = m # split_nl t"
  by (induction m) auto

lemma split_nl_frames:
  "list_all (\<lambda>m. NL \<notin> set m) ms \<Longrightarrow> NL \<notin> set r \<Longrightarrow> split_nl (frames ms @ r) = ms @ [r]"
  by (induction ms) (auto simp: frames_def split_nl_plain split_nl_frame)

text \<open>
  Feeding chunks one by one gives what splitting the concatenation of their decoded texts
  gives: the buffer logic loses nothing between feeds.
\<close>

lemma feed_text:
  "NL \<notin> set b \<Longrightarrow>
   feed b chunks =
     (butlast (split_nl (b @ concat (map toString chunks))),
      last (split_nl (b @ concat (map toString chunks))))"
proof (induction chunks arbitrary: b)
  case Nil
  then show ?case by (simp add: split_nl_plain)
next
  case (Cons d chunks)
  let ?t = "b @ toString d"
  let ?rest = "concat (map toString chunks)"
  have ih: "feed (last (split_nl ?t)) chunks =
     (butlast (split_nl (last (split_nl ?t) @ ?rest)), last (split_nl (last (split_nl ?t) @ ?rest)))"
    using Cons.IH[OF last_split_nl_plain] .
  have sp: "split_nl (?t @ ?rest) = butlast (split_nl ?t) @ split_nl (last (split_nl ?t) @ ?rest)"
    by (rule split_nl_append)
  have ne: "split_nl (last (split_nl ?t) @ ?rest) \<noteq> []" by (rule split_nl_nonempty)
  show ?case
    using ih sp ne by (simp add: take_messages_def Let_def butlast_append)
qed

text \<open>
  The round trip on decoded text: when the texts of the chunks, each decoded on its own,
  concatenate to the messages with their terminators followed by a partial message, the
  feeds return exactly the messages, and the partial message stays in the buffer.
\<close>

lemma framing_text_roundtrip:
  assumes "list_all (\<lambda>m. NL \<notin> set m) ms" "NL \<notin> set r"
    and "concat (map toString chunks) = frames ms @ r"
  shows "feed [] chunks = (ms, r)"
  using assms by (simp add: feed_text split_nl_frames)

text \<open>A chunk of ASCII bytes decodes byte by byte, wherever the stream was cut.\<close>

lemma utf8_decode_ascii:
  "list_all (\<lambda>b. b < 0x80) bs \<Longrightarrow> utf8_decode utf8_init bs = bs"
  by (induction bs) (auto simp: utf8_lead_def utf8_init_def)

lemma toString_ascii:
  assumes "list_all (\<lambda>b. b < 0x80) d"
  shows "toString d = map ucast d"
proof -
  have a: "list_all (\<lambda>b. b < 0x80) (map unat d)"
    using assms by (induction d) (auto simp: word_less_nat_alt)
  have "concat (map utf16_units (map unat d)) = map ucast d"
    using assms
  proof (induction d)
    case Nil
    then show ?case by simp
  next
    case (Cons x d)
    have "unat x < 0x10000" using Cons.prems by (simp add: word_less_nat_alt)
    then show ?case using Cons by (simp add: utf16_units_def)
  qed
  then show ?thesis using utf8_decode_ascii[OF a] by (simp add: toString_def)
qed

text \<open>
  Hence the round trip at every byte boundary of a stream of ASCII bytes: however the
  bytes of the messages and of the partial message are cut into chunks.
\<close>

lemma framing_ascii_roundtrip:
  assumes "list_all (list_all (\<lambda>b. b < 0x80)) chunks"
    and "list_all (\<lambda>m. NL \<notin> set m) ms" and "NL \<notin> set r"
    and "map ucast (concat chunks) = frames ms @ r"
  shows "feed [] chunks = (ms, r)"
proof -
  have "concat (map toString chunks) = map ucast (concat chunks)"
    using assms(1) by (induction chunks) (auto simp: toString_ascii)
  then show ?thesis using assms(2,3,4) by (simp add: framing_text_roundtrip)
qed

text \<open>
  C3 (framing round trip at arbitrary byte boundaries). The upload request above, sent
  whole, decodes to its text and is returned as one message. Cut between the two bytes of
  U+00E9, each chunk is decoded on its own: the message returned has two U+FFFD in place
  of the letter, so the original message is not reproduced.
\<close>

theorem framing_split_inside_character:
  "toString (ascii upload_head @ [0xC3, 0xA9] @ ascii upload_tail @ [0x0A])
     = js upload_head @ [0xE9] @ js upload_tail @ [NL]
   \<and> feed [] [ascii upload_head @ [0xC3, 0xA9] @ ascii upload_tail @ [0x0A]]
     = ([js upload_head @ [0xE9] @ js upload_tail], [])
   \<and> feed [] [ascii upload_head @ [0xC3], [0xA9] @ ascii upload_tail @ [0x0A]]
     = ([js upload_head @ [0xFFFD, 0xFFFD] @ js upload_tail], [])"
  by (simp add: ascii_def upload_head_def upload_tail_def js_def take_messages_def toString_def
      utf8_lead_def utf8_init_def utf16_units_def NL_def)

section \<open>The example requests\<close>

text \<open>
  Facts about the example requests and the example runtime, by evaluation: they discharge
  the hypotheses of the properties below on concrete runs.
\<close>

lemmas demo_texts = ping_text_def nope_text_def intruder_text_def upload_text_def

lemmas demo_eval = run.simps deliver.simps on_data_def take_messages_def toString_def utf8_lead_def
  utf8_init_def utf16_units_def NL_def ascii_def js_def demo_texts handle_message_def
  try_message_def parseMessage_def demo_env_def demo_parse_def request_def get2_def and_then_def
  trim_def is_space_def AUTH_TOKEN_def processQueue_def Let_def initial_def new_connection_def
  after_timer_def after_mutation_def executeMethod_def upload_args_def upload_result_def
  settle_def on_error_def ready_for_next_def socket_write_def socket_end_def socket_destroy_def
  remove_worker_def createResponse_def UPLOAD_FILE_def LIST_FILES_def DELETE_FILE_def
  CHECK_BALANCE_def PING_def RPC_METHODS_def

lemma request_fields:
  "get2 (request token name rid body) (js ''header'') (js ''method'') = Inr (JStr (js name))"
  "get2 (request token name rid body) (js ''header'') (js ''auth_token'') = Inr (JStr (js token))"
  "get2 (request token name rid body) (js ''header'') (js ''request_id'') = Inr (JStr (js rid))"
  "get (request token name rid body) (js ''body'') = Inr body"
  by (simp_all add: request_def get2_def and_then_def js_def)

lemma demo_trim:
  "trim (js ping_text) = js ping_text" "trim (js nope_text) = js nope_text"
  "trim (js intruder_text) = js intruder_text" "trim (js upload_text) = js upload_text"
  by (simp_all add: trim_def js_def is_space_def demo_texts)

lemma demo_parsed:
  "parseMessage (demo_env t) (js ping_text) = Inr (request ''SECRET_123'' ''PING'' ''r1'' (JObj []))"
  "parseMessage (demo_env t) (js intruder_text) = Inr (request ''GUESS'' ''PING'' ''r3'' (JObj []))"
  by (simp_all add: parseMessage_def demo_env_def demo_parse_def demo_trim)
    (simp_all add: js_def demo_texts)

lemma demo_not_json:
  "trim (js ''not json'') \<noteq> [] \<and> JSON_parse (demo_env t) (trim (js ''not json'')) = None"
  by (simp add: trim_def js_def is_space_def demo_env_def demo_parse_def demo_texts)

lemma ping_taken: "take_messages [] (ascii ping_text @ [0x0A]) = ([js ping_text], [])"
  by (simp add: take_messages_def toString_def utf8_lead_def utf8_init_def utf16_units_def NL_def
      ascii_def js_def demo_texts)

lemma upload_admitted:
  "workers (run [(demo_env 1, Data 0 (ascii upload_text @ [0x0A]))] (initial 0))
     = [AwaitTimer upload_job]
   \<and> sockets (run [(demo_env 1, Data 0 (ascii upload_text @ [0x0A]))] (initial 0)) 0
     = new_connection"
  by (simp add: demo_eval upload_job_def)

lemma nope_admitted:
  "workers (run [(demo_env 1, Data 0 (ascii nope_text @ [0x0A]))] (initial 0))
     = [AwaitTimer nope_job]
   \<and> processingQueue (run [(demo_env 1, Data 0 (ascii nope_text @ [0x0A]))] (initial 0)) = []
   \<and> startTime (run [(demo_env 1, Data 0 (ascii nope_text @ [0x0A]))] (initial 0)) = 0
   \<and> sockets (run [(demo_env 1, Data 0 (ascii nope_text @ [0x0A]))] (initial 0)) 0
     = new_connection"
  by (simp add: demo_eval nope_job_def)

lemma upload_awaiting:
  "workers (run [(demo_env 1, Data 0 (ascii upload_text @ [0x0A])), (demo_env 2, TimerFired 0)]
             (initial 0))
     = [AwaitMutation upload_job
          (JObj [(js ''filename'', JStr (js ''a.txt'')), (js ''fileSize'', JNum 5),
                 (js ''contentPreview'', JStr (js ''hello'')),
                 (js ''status'', JStr (js ''completed''))])]
   \<and> uploads (run [(demo_env 1, Data 0 (ascii upload_text @ [0x0A])), (demo_env 2, TimerFired 0)]
             (initial 0)) = []
   \<and> sockets (run [(demo_env 1, Data 0 (ascii upload_text @ [0x0A])), (demo_env 2, TimerFired 0)]
             (initial 0)) 0 = new_connection"
  by (simp add: demo_eval upload_job_def)

section \<open>Properties of the listener\<close>

text \<open>
  The \<^verbatim>\<open>try\<close> for one message ends in one of three ways, decided by the message
  alone: an exception, the rejection of the token, or a job pushed on the queue.
\<close>

lemma try_message_cases:
  "(\<exists>e. \<forall>s. try_message env c raw s = Inl e)
   \<or> (\<exists>rid. \<forall>s. try_message env c raw s =
          Inr (socket_end c (socket_write c
            (createResponse env (js ''ERROR'') (JStr (js ''Unauthorized'')) rid) s), True))
   \<or> (\<exists>j. \<forall>s. try_message env c raw s =
          Inr (processQueue env
            (s\<lparr>processingQueue := processingQueue s @ [j], history := history s @ [Push j]\<rparr>),
               False))"
proof (cases "parseMessage env raw")
  case (Inl e)
  then show ?thesis by (simp add: try_message_def and_then_def)
next
  case msg: (Inr m)
  show ?thesis
  proof (cases "get2 m (js ''header'') (js ''method'')")
    case (Inl e)
    with msg show ?thesis by (simp add: try_message_def and_then_def)
  next
    case meth: (Inr me)
    show ?thesis
    proof (cases "to_string (Number_toString env) me")
      case (Inl e)
      with msg meth show ?thesis by (simp add: try_message_def and_then_def)
    next
      case shown: (Inr sh)
      show ?thesis
      proof (cases "get2 m (js ''header'') (js ''auth_token'')")
        case (Inl e)
        with msg meth shown show ?thesis by (simp add: try_message_def and_then_def)
      next
        case tok: (Inr t)
        show ?thesis
        proof (cases "get2 m (js ''header'') (js ''request_id'')")
          case (Inl e)
          with msg meth shown tok show ?thesis
            by (auto simp: try_message_def and_then_def split: sum.splits)
        next
          case rid: (Inr r)
          show ?thesis
          proof (cases "get m (js ''body'')")
            case (Inl e)
            with msg meth shown tok rid show ?thesis
              by (auto simp: try_message_def and_then_def)
          next
            case (Inr b)
            with msg meth shown tok rid show ?thesis
              by (auto simp: try_message_def and_then_def Let_def)
          qed
        qed
      qed
    qed
  qed
qed

lemma try_message_unauthorized:
  assumes "parseMessage env raw = Inr msg"
    and "get2 msg (js ''header'') (js ''method'') = Inr meth"
    and "to_string (Number_toString env) meth = Inr shown"
    and "get2 msg (js ''header'') (js ''auth_token'') = Inr tok"
    and "tok \<noteq> JStr AUTH_TOKEN"
    and "get2 msg (js ''header'') (js ''request_id'') = Inr rid"
  shows "try_message env c raw s =
    Inr (socket_end c (socket_write c
       (createResponse env (js ''ERROR'') (JStr (js ''Unauthorized'')) rid) s), True)"
  using assms by (simp add: try_message_def and_then_def)

lemma try_message_unparsed:
  assumes "JSON_parse env (trim raw) = None"
  shows "try_message env c raw s = Inl (Error (js ''Failed to unmarshal message: Invalid JSON''))"
  using assms by (simp add: try_message_def parseMessage_def and_then_def)

lemma try_message_admitted:
  assumes "parseMessage env raw = Inr msg"
    and "get2 msg (js ''header'') (js ''method'') = Inr meth"
    and "to_string (Number_toString env) meth = Inr shown"
    and "get2 msg (js ''header'') (js ''auth_token'') = Inr (JStr AUTH_TOKEN)"
    and "get msg (js ''body'') = Inr body"
    and "get2 msg (js ''header'') (js ''request_id'') = Inr rid"
  shows "try_message env c raw s =
    Inr (processQueue env
          (s\<lparr>processingQueue := processingQueue s @
                 [\<lparr>rpc_method = meth, payload = body, requestId = rid, socket = c,
                   receivedAt = Date_now env\<rparr>],
             history := history s @
                 [Push \<lparr>rpc_method = meth, payload = body, requestId = rid, socket = c,
                        receivedAt = Date_now env\<rparr>]\<rparr>), False)"
  using assms by (simp add: try_message_def and_then_def Let_def)

lemma on_data_one_message:
  assumes "take_messages (buffer (sockets s c)) data = ([raw], rest)" and "trim raw \<noteq> []"
  shows "on_data env c data s =
     fst (handle_message env c raw
       (s\<lparr>totalReceived := totalReceived s + 1,
          sockets := (sockets s)(c := (sockets s c)\<lparr>buffer := rest\<rparr>)\<rparr>))"
  using assms by (simp add: on_data_def Let_def case_prod_unfold)

text \<open>
  What the loop does to the queue, the workers and the flag does not depend on what was
  written on the sockets before, nor on the error counter.
\<close>

lemma core_idem: "core (core s) = core s"
  by (simp add: core_def)

lemma core_socket_write: "core (socket_write c r s) = core s"
  by (auto simp: core_def socket_write_def fun_eq_iff)

lemma core_totalErrors: "core (s\<lparr>totalErrors := n\<rparr>) = core s"
  by (simp add: core_def)

lemma core_socket_end: "core (socket_end c s) = core (socket_end c (core s))"
  by (auto simp: core_def socket_end_def fun_eq_iff)

lemma core_processQueue: "core (processQueue env s) = processQueue env (core s)"
  by (auto simp: core_def processQueue_def Let_def split: list.splits sum.splits)

lemma core_push:
  "core (s\<lparr>processingQueue := processingQueue s @ [j], history := history s @ [Push j]\<rparr>)
   = (core s)\<lparr>processingQueue := processingQueue (core s) @ [j],
              history := history (core s) @ [Push j]\<rparr>"
  by (simp add: core_def)

lemma core_handle_message:
  "core (fst (handle_message env c raw s)) = core (fst (handle_message env c raw (core s)))
   \<and> snd (handle_message env c raw s) = snd (handle_message env c raw (core s))"
proof -
  consider
    (err) e where "\<forall>s. try_message env c raw s = Inl e"
  | (unauth) rid where "\<forall>s. try_message env c raw s =
          Inr (socket_end c (socket_write c
            (createResponse env (js ''ERROR'') (JStr (js ''Unauthorized'')) rid) s), True)"
  | (push) j where "\<forall>s. try_message env c raw s =
          Inr (processQueue env
            (s\<lparr>processingQueue := processingQueue s @ [j], history := history s @ [Push j]\<rparr>),
               False)"
    using try_message_cases[of env c raw] by blast
  then show ?thesis
  proof cases
    case err
    then show ?thesis
      by (simp add: handle_message_def core_socket_write core_totalErrors core_idem)
  next
    case unauth
    then show ?thesis
      by (auto simp: handle_message_def core_def socket_end_def socket_write_def fun_eq_iff)
  next
    case push
    then show ?thesis
      by (simp add: handle_message_def core_processQueue core_push core_idem)
  qed
qed

lemma core_handle_messages:
  "core (handle_messages env c ms s) = core (handle_messages env c ms (core s))"
proof (induction ms arbitrary: s)
  case Nil
  then show ?case by (simp add: core_idem)
next
  case (Cons raw rest)
  show ?case
  proof (cases "trim raw = []")
    case True
    then show ?thesis using Cons.IH by simp
  next
    case False
    let ?a = "handle_message env c raw s"
    let ?b = "handle_message env c raw (core s)"
    have fs: "core (fst ?a) = core (fst ?b)" and sn: "snd ?a = snd ?b"
      using core_handle_message[of env c raw s] by auto
    show ?thesis
    proof (cases "snd ?a")
      case True
      then show ?thesis using False fs sn by (simp add: case_prod_unfold)
    next
      case ret: False
      have "core (handle_messages env c rest (fst ?a)) = core (handle_messages env c rest (core (fst ?a)))"
        by (rule Cons.IH)
      also have "\<dots> = core (handle_messages env c rest (core (fst ?b)))" using fs by simp
      also have "\<dots> = core (handle_messages env c rest (fst ?b))" by (rule Cons.IH[symmetric])
      finally show ?thesis using False ret sn by (simp add: case_prod_unfold)
    qed
  qed
qed

text \<open>
  C9 (empty frames are dropped). A message that is empty, or empty once trimmed, changes
  nothing: no error is counted, no job is pushed, nothing is written; and the loop handles
  the messages around it as if it were not there.
\<close>

theorem empty_frame_dropped:
  assumes "trim m = []"
  shows "handle_messages env c [m] s = s
       \<and> handle_messages env c (before @ m # after) s = handle_messages env c (before @ after) s"
proof
  show "handle_messages env c [m] s = s" using assms by simp
  show "handle_messages env c (before @ m # after) s = handle_messages env c (before @ after) s"
    using assms by (induction before arbitrary: s) (auto split: prod.splits)
qed

text \<open>
  Three blank characters between a request and a frame that is not JSON.
\<close>

theorem empty_frame_dropped_witness:
  "trim [0x20, 0x09, 0x0D] = []
   \<and> handle_messages (demo_env 1) 0 [[0x20, 0x09, 0x0D]] (initial 0) = initial 0
   \<and> handle_messages (demo_env 1) 0 ([js ping_text] @ [0x20, 0x09, 0x0D] # [js ''not json''])
        (initial 0)
      = handle_messages (demo_env 1) 0 ([js ping_text] @ [js ''not json'']) (initial 0)"
proof -
  have h: "trim [0x20, 0x09, 0x0D] = []" by (simp add: trim_def is_space_def)
  show ?thesis
    using h empty_frame_dropped[where env = "demo_env 1" and c = 0 and s = "initial 0"
        and before = "[js ping_text]" and after = "[js ''not json'']", OF h]
    by blast
qed



text \<open>
  Without these two conditions the rejection does not happen: a parsed frame with no
  header, or with a method that cannot be printed, throws before the token is looked at;
  it is answered as a frame that is not JSON is, and the connection is not ended.
\<close>

lemma frame_without_header:
  assumes "parseMessage env raw = Inr (JObj fs)" and "map_of fs (js ''header'') = None"
  shows "handle_message env c raw s =
     (socket_write c
        (createResponse env (js ''ERROR'') (JStr (js ''Invalid message format'')) JUndefined)
        (s\<lparr>totalErrors := totalErrors s + 1\<rparr>), False)"
  using assms by (simp add: handle_message_def try_message_def and_then_def get2_def)








text \<open>
  C10 (the rest of the chunk after a rejected message). When a message of a chunk fails
  authentication, the loop returns: the state is the one response written and the
  connection ended, whatever messages follow in the same chunk; they are not parsed, not
  pushed and not answered, a valid token included.
\<close>

theorem auth_failure_discards_rest:
  assumes "trim raw \<noteq> []"
    and "parseMessage env raw = Inr msg"
    and "get2 msg (js ''header'') (js ''method'') = Inr meth"
    and "to_string (Number_toString env) meth = Inr shown"
    and "get2 msg (js ''header'') (js ''auth_token'') = Inr tok"
    and "tok \<noteq> JStr AUTH_TOKEN"
    and "get2 msg (js ''header'') (js ''request_id'') = Inr rid"
  shows "handle_messages env c (raw # rest) s =
     socket_end c (socket_write c
       (createResponse env (js ''ERROR'') (JStr (js ''Unauthorized'')) rid) s)"
  using assms(1) try_message_unauthorized[OF assms(2-), of c s]
  by (simp add: handle_message_def)

text \<open>
  The request with a guessed token followed, in the same chunk, by a valid request.
\<close>

theorem auth_failure_discards_rest_witness:
  "trim (js intruder_text) \<noteq> []
   \<and> JStr (js ''GUESS'') \<noteq> JStr AUTH_TOKEN
   \<and> handle_messages (demo_env 1) 0 [js intruder_text, js ping_text] (initial 0) =
       socket_end 0 (socket_write 0
         (createResponse (demo_env 1) (js ''ERROR'') (JStr (js ''Unauthorized'')) (JStr (js ''r3'')))
         (initial 0))
   \<and> processingQueue (handle_messages (demo_env 1) 0 [js intruder_text, js ping_text] (initial 0))
       = []"
proof -
  have n: "trim (js intruder_text) \<noteq> []" by (simp add: demo_trim) (simp add: js_def demo_texts)
  have t: "JStr (js ''GUESS'') \<noteq> JStr AUTH_TOKEN" by (simp add: AUTH_TOKEN_def js_def)
  have p: "to_string (Number_toString (demo_env 1)) (JStr (js ''PING'')) = Inr (js ''PING'')"
    by simp
  note th = auth_failure_discards_rest[where rest = "[js ping_text]" and c = 0 and s = "initial 0",
      OF n demo_parsed(2) request_fields(1) p request_fields(2) t request_fields(3)]
  have q: "processingQueue (handle_messages (demo_env 1) 0 [js intruder_text, js ping_text] (initial 0))
       = []"
    unfolding th by (simp add: initial_def socket_end_def socket_write_def)
  show ?thesis using n t th q by blast
qed

text \<open>
  C7 (a frame that is not JSON). The handler counts one error and writes exactly one
  \<^verbatim>\<open>ERROR\<close> response \<^verbatim>\<open>Invalid message format\<close> with a \<^verbatim>\<open>null\<close>
  \<^verbatim>\<open>request_id\<close>; it does not return and does not end the connection, and the loop goes
  on with the messages that follow. The queue, its history, the workers and the flag
  after the whole chunk are what they would be without that frame.
\<close>

theorem framing_error_isolated:
  assumes "trim raw \<noteq> []" and "JSON_parse env (trim raw) = None"
  shows "handle_messages env c (raw # rest) s =
           handle_messages env c rest
             (socket_write c
                (createResponse env (js ''ERROR'') (JStr (js ''Invalid message format'')) JUndefined)
                (s\<lparr>totalErrors := totalErrors s + 1\<rparr>))
       \<and> fst (handle_message env c raw s) =
           socket_write c
             \<lparr>status = js ''ERROR'', result = JStr (js ''Invalid message format''),
              request_id = JNull, timestamp = Date_now env\<rparr>
             (s\<lparr>totalErrors := totalErrors s + 1\<rparr>)
       \<and> \<not> snd (handle_message env c raw s)
       \<and> processingQueue (handle_messages env c (raw # rest) s)
           = processingQueue (handle_messages env c rest s)
       \<and> history (handle_messages env c (raw # rest) s) = history (handle_messages env c rest s)
       \<and> workers (handle_messages env c (raw # rest) s) = workers (handle_messages env c rest s)
       \<and> isProcessing (handle_messages env c (raw # rest) s)
           = isProcessing (handle_messages env c rest s)"
proof -
  let ?e = "socket_write c
                (createResponse env (js ''ERROR'') (JStr (js ''Invalid message format'')) JUndefined)
                (s\<lparr>totalErrors := totalErrors s + 1\<rparr>)"
  have hm: "handle_message env c raw s = (?e, False)"
    using try_message_unparsed[OF assms(2)] by (simp add: handle_message_def)
  have step: "handle_messages env c (raw # rest) s = handle_messages env c rest ?e"
    using assms(1) hm by simp
  have "core ?e = core s" by (simp add: core_socket_write core_totalErrors)
  then have c: "core (handle_messages env c (raw # rest) s) = core (handle_messages env c rest s)"
    using step core_handle_messages[of env c rest ?e] core_handle_messages[of env c rest s]
    by simp
  have q: "processingQueue (core x) = processingQueue x" "history (core x) = history x"
    "workers (core x) = workers x" "isProcessing (core x) = isProcessing x" for x
    by (simp_all add: core_def)
  have p1: "processingQueue (handle_messages env c (raw # rest) s)
           = processingQueue (handle_messages env c rest s)"
    using arg_cong[OF c, of processingQueue] by (simp only: q)
  have p2: "history (handle_messages env c (raw # rest) s) = history (handle_messages env c rest s)"
    using arg_cong[OF c, of history] by (simp only: q)
  have p3: "workers (handle_messages env c (raw # rest) s) = workers (handle_messages env c rest s)"
    using arg_cong[OF c, of workers] by (simp only: q)
  have p4: "isProcessing (handle_messages env c (raw # rest) s)
           = isProcessing (handle_messages env c rest s)"
    using arg_cong[OF c, of isProcessing] by (simp only: q)
  have p5: "fst (handle_message env c raw s) =
           socket_write c
             \<lparr>status = js ''ERROR'', result = JStr (js ''Invalid message format''),
              request_id = JNull, timestamp = Date_now env\<rparr>
             (s\<lparr>totalErrors := totalErrors s + 1\<rparr>)"
    using hm by (simp add: createResponse_def)
  have p6: "\<not> snd (handle_message env c raw s)" using hm by simp
  show ?thesis using step p1 p2 p3 p4 p5 p6 by blast
qed

text \<open>
  A frame that is not JSON, followed by a valid request.
\<close>

theorem framing_error_isolated_witness:
  "trim (js ''not json'') \<noteq> []
   \<and> JSON_parse (demo_env 1) (trim (js ''not json'')) = None
   \<and> written (sockets (fst (handle_message (demo_env 1) 0 (js ''not json'') (initial 0))) 0) =
        [\<lparr>status = js ''ERROR'', result = JStr (js ''Invalid message format''),
          request_id = JNull, timestamp = 1\<rparr>]
   \<and> \<not> ended (sockets (fst (handle_message (demo_env 1) 0 (js ''not json'') (initial 0))) 0)
   \<and> processingQueue (handle_messages (demo_env 1) 0 [js ''not json'', js ping_text] (initial 0))
       = processingQueue (handle_messages (demo_env 1) 0 [js ping_text] (initial 0))
   \<and> workers (handle_messages (demo_env 1) 0 [js ''not json'', js ping_text] (initial 0))
       = workers (handle_messages (demo_env 1) 0 [js ping_text] (initial 0))"
proof -
  have a: "trim (js ''not json'') \<noteq> []" and b: "JSON_parse (demo_env 1) (trim (js ''not json'')) = None"
    using demo_not_json[of 1] by simp_all
  note th = framing_error_isolated[where c = 0 and rest = "[js ping_text]" and s = "initial 0",
      OF a b]
  have f: "fst (handle_message (demo_env 1) 0 (js ''not json'') (initial 0)) =
           socket_write 0
             \<lparr>status = js ''ERROR'', result = JStr (js ''Invalid message format''),
              request_id = JNull, timestamp = Date_now (demo_env 1)\<rparr>
             ((initial 0)\<lparr>totalErrors := totalErrors (initial 0) + 1\<rparr>)"
    using th by blast
  have w: "written (sockets (fst (handle_message (demo_env 1) 0 (js ''not json'') (initial 0))) 0) =
        [\<lparr>status = js ''ERROR'', result = JStr (js ''Invalid message format''),
          request_id = JNull, timestamp = 1\<rparr>]"
    unfolding f by (simp add: socket_write_def initial_def new_connection_def demo_env_def)
  have e: "\<not> ended (sockets (fst (handle_message (demo_env 1) 0 (js ''not json'') (initial 0))) 0)"
    unfolding f by (simp add: socket_write_def initial_def new_connection_def)
  show ?thesis using a b w e th by blast
qed

section \<open>Properties of the dispatcher\<close>

lemma pushed_append: "pushed (h @ k) = pushed h @ pushed k"
  by (induction h rule: pushed.induct) auto

lemma shifted_append: "shifted (h @ k) = shifted h @ shifted k"
  by (induction h rule: shifted.induct) auto

lemma one_worker_processQueue: "one_worker s \<Longrightarrow> one_worker (processQueue env s)"
  by (auto simp: one_worker_def processQueue_def Let_def split: list.splits sum.splits)

lemma one_worker_socket_write [simp]: "one_worker (socket_write c r s) = one_worker s"
  by (simp add: one_worker_def socket_write_def)

lemma one_worker_socket_end [simp]: "one_worker (socket_end c s) = one_worker s"
  by (simp add: one_worker_def socket_end_def)

lemma one_worker_socket_destroy [simp]: "one_worker (socket_destroy c s) = one_worker s"
  by (simp add: one_worker_def socket_destroy_def)

lemma one_worker_handle_message:
  assumes "one_worker s"
  shows "one_worker (fst (handle_message env c raw s))"
proof -
  have p: "one_worker (s\<lparr>processingQueue := q, history := h\<rparr>)" for q h
    using assms by (simp add: one_worker_def)
  have e: "one_worker (s\<lparr>totalErrors := n\<rparr>)" for n
    using assms by (simp add: one_worker_def)
  show ?thesis
    using try_message_cases[of env c raw] assms
    by (auto simp: handle_message_def one_worker_processQueue p e)
qed

lemma one_worker_handle_messages:
  "one_worker s \<Longrightarrow> one_worker (handle_messages env c ms s)"
proof (induction ms arbitrary: s)
  case Nil
  then show ?case by simp
next
  case (Cons raw rest)
  have "one_worker (fst (handle_message env c raw s))"
    using Cons.prems by (rule one_worker_handle_message)
  then show ?case using Cons by (auto split: prod.splits)
qed

lemma one_worker_on_data: "one_worker s \<Longrightarrow> one_worker (on_data env c d s)"
proof -
  assume a: "one_worker s"
  have "one_worker (s\<lparr>totalReceived := n, sockets := f\<rparr>)" for n f
    using a by (simp add: one_worker_def)
  then show ?thesis
    by (auto simp: on_data_def Let_def split: prod.splits intro: one_worker_handle_messages)
qed

lemma idle_on_error: "workers s = [] \<Longrightarrow> workers (on_error env j e s) = []"
  by (auto simp: on_error_def ready_for_next_def socket_write_def Let_def split: sum.splits)

lemma idle_settle: "workers s = [] \<Longrightarrow> workers (settle env j r s) = []"
  by (auto simp: settle_def idle_on_error ready_for_next_def socket_write_def Let_def
      split: sum.splits)

lemma remove_only_worker:
  "length (workers s) \<le> 1 \<Longrightarrow> i < length (workers s) \<Longrightarrow> workers (remove_worker i s) = []"
  by (cases "workers s") (auto simp: remove_worker_def)

lemma one_worker_idle: "workers s = [] \<Longrightarrow> one_worker s"
  by (simp add: one_worker_def)

lemma one_worker_after_timer:
  assumes "one_worker s" "i < length (workers s)"
  shows "one_worker (after_timer env i j s)"
proof (cases "executeMethod env (startTime s) (rpc_method j) (payload j)")
  case (Settled r)
  have "workers (remove_worker i s) = []"
    using assms by (simp add: one_worker_def remove_only_worker)
  then show ?thesis using Settled by (simp add: after_timer_def idle_settle one_worker_idle)
next
  case (Await args)
  then show ?thesis using assms by (auto simp: after_timer_def one_worker_def)
qed

lemma one_worker_after_mutation:
  assumes "one_worker s" "i < length (workers s)"
  shows "one_worker (after_mutation env i j args ok s)"
proof -
  have "workers (remove_worker i (if ok then s\<lparr>uploads := uploads s @ [args]\<rparr> else s)) = []"
    using assms by (auto simp: one_worker_def remove_worker_def)
  then show ?thesis by (simp add: after_mutation_def idle_settle one_worker_idle)
qed

lemma one_worker_deliver: "one_worker s \<Longrightarrow> one_worker (deliver env ev s)"
proof (cases ev)
  case (Data c d)
  assume "one_worker s"
  then show ?thesis using Data by (simp add: one_worker_on_data)
next
  case Immediate
  assume a: "one_worker s"
  have "one_worker (s\<lparr>immediates := n\<rparr>)" for n using a by (simp add: one_worker_def)
  then show ?thesis using Immediate a by (simp add: one_worker_processQueue)
next
  case (TimerFired i)
  assume "one_worker s"
  then show ?thesis using TimerFired by (auto simp: one_worker_after_timer split: worker.splits)
next
  case (MutationSettled i ok)
  assume "one_worker s"
  then show ?thesis using MutationSettled
    by (auto simp: one_worker_after_mutation split: worker.splits)
qed simp_all

lemma one_worker_run: "one_worker s \<Longrightarrow> one_worker (run evs s)"
  by (induction evs arbitrary: s) (auto simp: one_worker_deliver)

lemma one_worker_initial: "one_worker (initial t)"
  by (simp add: one_worker_def initial_def)

text \<open>
  C1 (at most one job executing). Whatever the runtime delivers, in whatever order and on
  however many connections, at most one invocation of \<^verbatim>\<open>processQueue\<close> is between
  its \<^verbatim>\<open>shift\<close> and the end of its response write, and the flag is set while one is.
\<close>

theorem at_most_one_job_executing:
  "length (workers (run evs (initial t))) \<le> 1
   \<and> (workers (run evs (initial t)) = [] \<or> isProcessing (run evs (initial t)))"
  using one_worker_run[OF one_worker_initial, of evs t] by (simp add: one_worker_def)

text \<open>
  Two connections send one request each: the first job is in execution, the second waits
  in the queue.
\<close>

theorem at_most_one_job_executing_witness:
  "workers (run [(demo_env 1, Data 0 (ascii ping_text @ [0x0A])),
                 (demo_env 2, Data 1 (ascii nope_text @ [0x0A]))] (initial 0))
     = [AwaitTimer \<lparr>rpc_method = JStr (js ''PING''), payload = JObj [],
                    requestId = JStr (js ''r1''), socket = 0, receivedAt = 1\<rparr>]
   \<and> processingQueue (run [(demo_env 1, Data 0 (ascii ping_text @ [0x0A])),
                 (demo_env 2, Data 1 (ascii nope_text @ [0x0A]))] (initial 0))
     = [\<lparr>rpc_method = JStr (js ''NOPE''), payload = JObj [],
         requestId = JStr (js ''r2''), socket = 1, receivedAt = 2\<rparr>]
   \<and> length (workers (run [(demo_env 1, Data 0 (ascii ping_text @ [0x0A])),
                 (demo_env 2, Data 1 (ascii nope_text @ [0x0A]))] (initial 0))) \<le> 1
   \<and> isProcessing (run [(demo_env 1, Data 0 (ascii ping_text @ [0x0A])),
                 (demo_env 2, Data 1 (ascii nope_text @ [0x0A]))] (initial 0))"
proof -
  let ?s = "run [(demo_env 1, Data 0 (ascii ping_text @ [0x0A])),
                 (demo_env 2, Data 1 (ascii nope_text @ [0x0A]))] (initial 0)"
  have w: "workers ?s = [AwaitTimer \<lparr>rpc_method = JStr (js ''PING''), payload = JObj [],
                    requestId = JStr (js ''r1''), socket = 0, receivedAt = 1\<rparr>]"
    by (simp add: demo_eval)
  have q: "processingQueue ?s = [\<lparr>rpc_method = JStr (js ''NOPE''), payload = JObj [],
         requestId = JStr (js ''r2''), socket = 1, receivedAt = 2\<rparr>]"
    by (simp add: demo_eval)
  note th = at_most_one_job_executing[of "[(demo_env 1, Data 0 (ascii ping_text @ [0x0A])),
                 (demo_env 2, Data 1 (ascii nope_text @ [0x0A]))]" 0]
  have "isProcessing ?s" using th w by simp
  then show ?thesis using th w q by blast
qed

lemma in_order_processQueue: "in_order s \<Longrightarrow> in_order (processQueue env s)"
  by (auto simp: in_order_def processQueue_def Let_def shifted_append pushed_append
      split: list.splits sum.splits)

lemma in_order_socket_write [simp]: "in_order (socket_write c r s) = in_order s"
  by (simp add: in_order_def socket_write_def)

lemma in_order_socket_end [simp]: "in_order (socket_end c s) = in_order s"
  by (simp add: in_order_def socket_end_def)

lemma in_order_socket_destroy [simp]: "in_order (socket_destroy c s) = in_order s"
  by (simp add: in_order_def socket_destroy_def)

lemma in_order_handle_message:
  assumes "in_order s"
  shows "in_order (fst (handle_message env c raw s))"
proof -
  have p: "in_order (s\<lparr>processingQueue := processingQueue s @ [j], history := history s @ [Push j]\<rparr>)" for j
    using assms by (simp add: in_order_def shifted_append pushed_append)
  have e: "in_order (s\<lparr>totalErrors := n\<rparr>)" for n
    using assms by (simp add: in_order_def)
  show ?thesis
    using try_message_cases[of env c raw] assms
    by (auto simp: handle_message_def in_order_processQueue p e)
qed

lemma in_order_handle_messages:
  "in_order s \<Longrightarrow> in_order (handle_messages env c ms s)"
proof (induction ms arbitrary: s)
  case Nil
  then show ?case by simp
next
  case (Cons raw rest)
  have "in_order (fst (handle_message env c raw s))"
    using Cons.prems by (rule in_order_handle_message)
  then show ?case using Cons by (auto split: prod.splits)
qed

lemma in_order_on_data: "in_order s \<Longrightarrow> in_order (on_data env c d s)"
proof -
  assume a: "in_order s"
  have "in_order (s\<lparr>totalReceived := n, sockets := f\<rparr>)" for n f
    using a by (simp add: in_order_def)
  then show ?thesis
    by (auto simp: on_data_def Let_def split: prod.splits intro: in_order_handle_messages)
qed

lemma queue_on_error:
  "processingQueue (on_error env j e s) = processingQueue s \<and> history (on_error env j e s) = history s"
  by (simp add: on_error_def ready_for_next_def socket_write_def Let_def split: sum.splits)

lemma queue_settle:
  "processingQueue (settle env j r s) = processingQueue s \<and> history (settle env j r s) = history s"
  by (simp add: settle_def queue_on_error ready_for_next_def socket_write_def Let_def
      split: sum.splits)

lemma in_order_settle: "in_order (settle env j r s) = in_order s"
  by (simp add: in_order_def queue_settle)

lemma in_order_deliver: "in_order s \<Longrightarrow> in_order (deliver env ev s)"
proof (cases ev)
  case (Data c d)
  assume "in_order s"
  then show ?thesis using Data by (simp add: in_order_on_data)
next
  case Immediate
  assume a: "in_order s"
  have "in_order (s\<lparr>immediates := n\<rparr>)" for n using a by (simp add: in_order_def)
  then show ?thesis using Immediate a by (simp add: in_order_processQueue)
next
  case (TimerFired i)
  assume a: "in_order s"
  have "in_order (remove_worker i s)" using a by (simp add: in_order_def remove_worker_def)
  moreover have "in_order (s\<lparr>workers := w\<rparr>)" for w using a by (simp add: in_order_def)
  ultimately show ?thesis using TimerFired a
    by (auto simp: after_timer_def in_order_settle split: worker.splits outcome.splits)
next
  case (MutationSettled i ok)
  assume a: "in_order s"
  have "in_order (remove_worker i (if ok then s\<lparr>uploads := uploads s @ [args]\<rparr> else s))" for args
    using a by (simp add: in_order_def remove_worker_def)
  then show ?thesis using MutationSettled a
    by (auto simp: after_mutation_def in_order_settle split: worker.splits simp del: if_split)
qed simp_all

lemma in_order_run: "in_order s \<Longrightarrow> in_order (run evs s)"
  by (induction evs arbitrary: s) (auto simp: in_order_deliver)

text \<open>
  C2 (global FIFO). In every reachable state the jobs pushed so far, from whatever
  connections, are the jobs shifted so far followed by the queue: the \<open>k\<close>-th job to
  begin execution is the \<open>k\<close>-th job admitted.
\<close>

theorem global_fifo:
  "pushed (history (run evs (initial t)))
     = shifted (history (run evs (initial t))) @ processingQueue (run evs (initial t))
   \<and> (\<forall>k < length (shifted (history (run evs (initial t)))).
         shifted (history (run evs (initial t))) ! k = pushed (history (run evs (initial t))) ! k)"
proof -
  have "in_order (initial t)" by (simp add: in_order_def initial_def)
  then have eq: "pushed (history (run evs (initial t)))
     = shifted (history (run evs (initial t))) @ processingQueue (run evs (initial t))"
    using in_order_run[of "initial t" evs] by (simp add: in_order_def)
  show ?thesis using eq by (simp add: nth_append)
qed

text \<open>
  Two connections, one request each, both executed.
\<close>

theorem global_fifo_witness:
  "1 < length (shifted (history
         (run [(demo_env 1, Data 0 (ascii ping_text @ [0x0A])),
               (demo_env 2, Data 1 (ascii nope_text @ [0x0A])),
               (demo_env 3, TimerFired 0), (demo_env 4, Immediate)] (initial 0))))
   \<and> shifted (history
         (run [(demo_env 1, Data 0 (ascii ping_text @ [0x0A])),
               (demo_env 2, Data 1 (ascii nope_text @ [0x0A])),
               (demo_env 3, TimerFired 0), (demo_env 4, Immediate)] (initial 0))) ! 1
     = pushed (history
         (run [(demo_env 1, Data 0 (ascii ping_text @ [0x0A])),
               (demo_env 2, Data 1 (ascii nope_text @ [0x0A])),
               (demo_env 3, TimerFired 0), (demo_env 4, Immediate)] (initial 0))) ! 1
   \<and> pushed (history
         (run [(demo_env 1, Data 0 (ascii ping_text @ [0x0A])),
               (demo_env 2, Data 1 (ascii nope_text @ [0x0A])),
               (demo_env 3, TimerFired 0), (demo_env 4, Immediate)] (initial 0)))
     = [\<lparr>rpc_method = JStr (js ''PING''), payload = JObj [], requestId = JStr (js ''r1''),
         socket = 0, receivedAt = 1\<rparr>,
        \<lparr>rpc_method = JStr (js ''NOPE''), payload = JObj [], requestId = JStr (js ''r2''),
         socket = 1, receivedAt = 2\<rparr>]"
proof -
  let ?s = "run [(demo_env 1, Data 0 (ascii ping_text @ [0x0A])),
               (demo_env 2, Data 1 (ascii nope_text @ [0x0A])),
               (demo_env 3, TimerFired 0), (demo_env 4, Immediate)] (initial 0)"
  let ?p = "\<lparr>rpc_method = JStr (js ''PING''), payload = JObj [], requestId = JStr (js ''r1''),
         socket = 0, receivedAt = 1\<rparr>"
  let ?n = "\<lparr>rpc_method = JStr (js ''NOPE''), payload = JObj [], requestId = JStr (js ''r2''),
         socket = 1, receivedAt = 2\<rparr>"
  have h: "history ?s = [Push ?p, Shift ?p, Push ?n, Shift ?n]"
    by (simp add: demo_eval)
  have l: "1 < length (shifted (history ?s))" and p: "pushed (history ?s) = [?p, ?n]"
    unfolding h by simp_all
  note th = global_fifo[of "[(demo_env 1, Data 0 (ascii ping_text @ [0x0A])),
               (demo_env 2, Data 1 (ascii nope_text @ [0x0A])),
               (demo_env 3, TimerFired 0), (demo_env 4, Immediate)]" 0]
  have "shifted (history ?s) ! 1 = pushed (history ?s) ! 1"
    using th l by blast
  then show ?thesis using l p by blast
qed

section \<open>Properties of the methods\<close>

lemma settle_ok_open:
  assumes "to_string (Number_toString env) (rpc_method j) = Inr shown"
    and "\<not> destroyed (sockets s (socket j))"
  shows "settle env j (Inr res) s =
    ready_for_next ((socket_write (socket j) (createResponse env (js ''OK'') res (requestId j)) s)
       \<lparr>totalProcessed := totalProcessed s + 1\<rparr>)"
  using assms by (simp add: settle_def Let_def socket_write_def)

lemma settle_error_open:
  assumes "to_string (Number_toString env) (rpc_method j) = Inr shown"
    and "\<not> destroyed (sockets s (socket j))"
  shows "settle env j (Inl e) s =
    ready_for_next (socket_write (socket j)
       (createResponse env (js ''ERROR'') (JStr (message e)) (requestId j))
       (s\<lparr>totalErrors := totalErrors s + 1\<rparr>))"
  using assms by (simp add: settle_def on_error_def Let_def)

lemma executeMethod_unknown:
  assumes "to_string (Number_toString env) meth = Inr name"
    and "list_all (\<lambda>m. meth \<noteq> JStr m) RPC_METHODS"
  shows "executeMethod env t meth body = Settled (Inl (Error (js ''Unknown method: '' @ name)))"
  using assms by (auto simp: executeMethod_def RPC_METHODS_def)

lemma executeMethod_ping:
  "executeMethod env t (JStr PING) body =
     Settled (Inr (JObj [(js ''pong'', JBool True),
               (js ''serverTime'', JNum (of_nat (Date_now env))),
               (js ''uptime'', JNum ((of_nat (Date_now env) - of_nat t) / 1000))]))"
  by (simp add: executeMethod_def PING_def UPLOAD_FILE_def LIST_FILES_def DELETE_FILE_def
      CHECK_BALANCE_def js_def)

text \<open>
  An upload whose body has a file name and a content, both strings, reaches the audit
  write; one with no body fails before it.
\<close>

lemma executeMethod_upload:
  assumes "map_of fs (js ''filename'') = Some (JStr name)"
    and "map_of fs (js ''content'') = Some (JStr text)"
  shows "executeMethod env t (JStr UPLOAD_FILE) (JObj fs) =
    Await (JObj [(js ''filename'', JStr name), (js ''fileSize'', JNum (of_nat (length text))),
                 (js ''contentPreview'', JStr (take 50 text)),
                 (js ''status'', JStr (js ''completed''))])"
  using assms by (simp add: executeMethod_def upload_args_def and_then_def)

lemma upload_without_body:
  "executeMethod env t (JStr UPLOAD_FILE) JUndefined =
     Settled (Inl (TypeError (js ''Cannot read properties of undefined (reading ''
                              @ [0x27] @ js ''filename'' @ [0x27] @ js '')'')))"
  by (simp add: executeMethod_def and_then_def)

text \<open>
  In every reachable state, a worker that awaits the mutation satisfies \<open>awaited\<close>.
\<close>

lemma executeMethod_Await:
  assumes "executeMethod env t meth body = Await args"
  shows "meth = JStr UPLOAD_FILE \<and> upload_args body = Inr args"
  using assms by (auto simp: executeMethod_def split: sum.splits if_splits)

lemma workers_on_error: "workers (on_error env j e s) = workers s"
  by (simp add: on_error_def ready_for_next_def socket_write_def Let_def split: sum.splits)

lemma workers_settle: "workers (settle env j r s) = workers s"
  by (simp add: settle_def workers_on_error ready_for_next_def socket_write_def Let_def
      split: sum.splits)

lemma awaited_processQueue:
  "list_all awaited (workers s) \<Longrightarrow> list_all awaited (workers (processQueue env s))"
  by (auto simp: processQueue_def Let_def split: list.splits sum.splits)

lemma awaited_handle_message:
  assumes "list_all awaited (workers s)"
  shows "list_all awaited (workers (fst (handle_message env c raw s)))"
proof -
  have p: "list_all awaited (workers (s\<lparr>processingQueue := q, history := h\<rparr>))" for q h
    using assms by simp
  show ?thesis
    using try_message_cases[of env c raw] assms awaited_processQueue[OF p]
    by (auto simp: handle_message_def socket_write_def socket_end_def)
qed

lemma awaited_handle_messages:
  "list_all awaited (workers s) \<Longrightarrow> list_all awaited (workers (handle_messages env c ms s))"
proof (induction ms arbitrary: s)
  case Nil
  then show ?case by simp
next
  case (Cons raw rest)
  have "list_all awaited (workers (fst (handle_message env c raw s)))"
    using Cons.prems by (rule awaited_handle_message)
  then show ?case using Cons by (auto split: prod.splits)
qed

lemma awaited_remove:
  "list_all awaited ws \<Longrightarrow> list_all awaited (take i ws) \<and> list_all awaited (drop n ws)"
  by (auto simp: list_all_iff dest: in_set_takeD in_set_dropD)

lemma awaited_deliver:
  assumes "list_all awaited (workers s)"
  shows "list_all awaited (workers (deliver env ev s))"
proof (cases ev)
  case (Data c d)
  have "list_all awaited (workers (s\<lparr>totalReceived := n, sockets := f\<rparr>))" for n f
    using assms by simp
  then show ?thesis using Data assms
    by (auto simp: on_data_def Let_def split: prod.splits intro: awaited_handle_messages)
next
  case (SocketTimeout c)
  then show ?thesis using assms by (simp add: socket_end_def)
next
  case (SocketClosed c)
  then show ?thesis using assms by (simp add: socket_destroy_def)
next
  case Immediate
  have "list_all awaited (workers (s\<lparr>immediates := n\<rparr>))" for n using assms by simp
  then show ?thesis using Immediate assms by (simp add: awaited_processQueue)
next
  case (TimerFired i)
  show ?thesis
  proof (cases "i < length (workers s)")
    case False
    then show ?thesis using TimerFired assms by simp
  next
    case True
    show ?thesis
    proof (cases "workers s ! i")
      case (AwaitMutation j args)
      then show ?thesis using TimerFired True assms by simp
    next
      case (AwaitTimer j)
      show ?thesis
      proof (cases "executeMethod env (startTime s) (rpc_method j) (payload j)")
        case (Settled r)
        then show ?thesis using TimerFired True AwaitTimer assms
          by (simp add: after_timer_def workers_settle remove_worker_def awaited_remove)
      next
        case (Await args)
        have "awaited (AwaitMutation j args)"
          using executeMethod_Await[OF Await] by simp
        then have "list_all awaited ((workers s)[i := AwaitMutation j args])"
          using assms by (auto simp: list_all_iff dest: set_update_subset_insert[THEN subsetD])
        then show ?thesis using TimerFired True AwaitTimer Await by (simp add: after_timer_def)
      qed
    qed
  qed
next
  case (MutationSettled i ok)
  show ?thesis
  proof (cases "i < length (workers s)")
    case False
    then show ?thesis using MutationSettled assms by simp
  next
    case True
    show ?thesis
    proof (cases "workers s ! i")
      case (AwaitTimer j)
      then show ?thesis using MutationSettled True assms by simp
    next
      case (AwaitMutation j args)
      then show ?thesis using MutationSettled True assms
        by (simp add: after_mutation_def workers_settle remove_worker_def awaited_remove)
    qed
  qed
qed

lemma awaited_run:
  "list_all awaited (workers s) \<Longrightarrow> list_all awaited (workers (run evs s))"
  by (induction evs arbitrary: s) (auto simp: awaited_deliver)

lemma upload_result_after_args:
  assumes "upload_args body = Inr args"
    and "get body (js ''filename'') = Inr filename"
    and "get body (js ''content'') = Inr content"
  shows "upload_result env body =
    Inr (JObj [(js ''message'', JStr (js ''File uploaded successfully'')),
               (js ''filename'', filename),
               (js ''size'', JNum (of_nat (case content of JStr text \<Rightarrow> length text | _ \<Rightarrow> 0))),
               (js ''storedAt'', JStr (Date_toISOString env))])"
  using assms
  by (cases content)
    (auto simp: upload_args_def upload_result_def and_then_def split: if_splits)

text \<open>
  C5 (the audit write is best effort). Take any reachable state and any job whose
  handler awaits the audit write \<^verbatim>\<open>uploads:logUpload\<close>, on a connection that is not
  destroyed. It is an \<^verbatim>\<open>UPLOAD_FILE\<close> job, and when the write fails the handler
  returns all the same: the response written is \<^verbatim>\<open>OK\<close>, with the file name of the
  request and, as size, the length of its content (0 when there is no content). Nothing
  enters the audit store and no error is counted.
\<close>

theorem audit_failure_not_propagated:
  assumes "i < length (workers (run evs (initial t)))"
    and "workers (run evs (initial t)) ! i = AwaitMutation j args"
    and "\<not> destroyed (sockets (run evs (initial t)) (socket j))"
    and "get (payload j) (js ''filename'') = Inr filename"
    and "get (payload j) (js ''content'') = Inr content"
  shows "rpc_method j = JStr UPLOAD_FILE
       \<and> written (sockets (deliver env (MutationSettled i False) (run evs (initial t))) (socket j)) =
           written (sockets (run evs (initial t)) (socket j)) @
             [\<lparr>status = js ''OK'',
               result = JObj [(js ''message'', JStr (js ''File uploaded successfully'')),
                              (js ''filename'', filename),
                              (js ''size'',
                               JNum (of_nat (case content of JStr text \<Rightarrow> length text | _ \<Rightarrow> 0))),
                              (js ''storedAt'', JStr (Date_toISOString env))],
               request_id = (if requestId j = JUndefined then JNull else requestId j),
               timestamp = Date_now env\<rparr>]
       \<and> uploads (deliver env (MutationSettled i False) (run evs (initial t)))
           = uploads (run evs (initial t))
       \<and> totalErrors (deliver env (MutationSettled i False) (run evs (initial t)))
           = totalErrors (run evs (initial t))"
proof -
  let ?s = "run evs (initial t)"
  have "list_all awaited (workers (initial t))" by (simp add: initial_def)
  then have "list_all awaited (workers ?s)" by (rule awaited_run)
  then have "awaited (workers ?s ! i)" using assms(1) by (simp add: list_all_length)
  then have m: "rpc_method j = JStr UPLOAD_FILE" and a: "upload_args (payload j) = Inr args"
    using assms(2) by simp_all
  have ts: "to_string (Number_toString env) (rpc_method j) = Inr UPLOAD_FILE" using m by simp
  have op: "\<not> destroyed (sockets (remove_worker i ?s) (socket j))"
    using assms(3) by (simp add: remove_worker_def)
  have "deliver env (MutationSettled i False) ?s =
     ready_for_next ((socket_write (socket j)
        (createResponse env (js ''OK'')
           (JObj [(js ''message'', JStr (js ''File uploaded successfully'')),
               (js ''filename'', filename),
               (js ''size'', JNum (of_nat (case content of JStr text \<Rightarrow> length text | _ \<Rightarrow> 0))),
               (js ''storedAt'', JStr (Date_toISOString env))]) (requestId j))
        (remove_worker i ?s))
       \<lparr>totalProcessed := totalProcessed (remove_worker i ?s) + 1\<rparr>)"
    using assms(1,2) settle_ok_open[OF ts op]
      upload_result_after_args[OF a assms(4,5), of env]
    by (simp add: after_mutation_def)
  then show ?thesis using m
    by (simp add: ready_for_next_def socket_write_def remove_worker_def createResponse_def)
qed

text \<open>
  The upload of \<^verbatim>\<open>a.txt\<close> with the content \<^verbatim>\<open>hello\<close>.
\<close>

theorem audit_failure_not_propagated_witness:
  "workers (run [(demo_env 1, Data 0 (ascii upload_text @ [0x0A])), (demo_env 2, TimerFired 0)]
             (initial 0)) ! 0
     = AwaitMutation upload_job
         (JObj [(js ''filename'', JStr (js ''a.txt'')), (js ''fileSize'', JNum 5),
                (js ''contentPreview'', JStr (js ''hello'')),
                (js ''status'', JStr (js ''completed''))])
   \<and> \<not> destroyed (sockets (run [(demo_env 1, Data 0 (ascii upload_text @ [0x0A])),
                                   (demo_env 2, TimerFired 0)] (initial 0)) 0)
   \<and> written (sockets
        (deliver (demo_env 3) (MutationSettled 0 False)
          (run [(demo_env 1, Data 0 (ascii upload_text @ [0x0A])), (demo_env 2, TimerFired 0)]
             (initial 0))) 0)
     = [\<lparr>status = js ''OK'',
         result = JObj [(js ''message'', JStr (js ''File uploaded successfully'')),
                        (js ''filename'', JStr (js ''a.txt'')), (js ''size'', JNum 5),
                        (js ''storedAt'', JStr (js ''2026-01-01T00:00:00.000Z''))],
         request_id = JStr (js ''r4''), timestamp = 3\<rparr>]
   \<and> uploads
        (deliver (demo_env 3) (MutationSettled 0 False)
          (run [(demo_env 1, Data 0 (ascii upload_text @ [0x0A])), (demo_env 2, TimerFired 0)]
             (initial 0))) = []"
proof -
  let ?evs = "[(demo_env 1, Data 0 (ascii upload_text @ [0x0A])), (demo_env 2, TimerFired 0)]"
  let ?s = "run ?evs (initial 0)"
  let ?args = "JObj [(js ''filename'', JStr (js ''a.txt'')), (js ''fileSize'', JNum 5),
                (js ''contentPreview'', JStr (js ''hello'')),
                (js ''status'', JStr (js ''completed''))]"
  have w: "workers ?s = [AwaitMutation upload_job ?args]" and u: "uploads ?s = []"
    and c: "sockets ?s 0 = new_connection"
    using upload_awaiting by blast+
  have h1: "0 < length (workers ?s)" and h2: "workers ?s ! 0 = AwaitMutation upload_job ?args"
    using w by simp_all
  have sj: "socket upload_job = 0" by (simp add: upload_job_def)
  have h3: "\<not> destroyed (sockets ?s (socket upload_job))"
    using c sj by (simp add: new_connection_def)
  have h4: "get (payload upload_job) (js ''filename'') = Inr (JStr (js ''a.txt''))"
    by (simp add: upload_job_def)
  have h5: "get (payload upload_job) (js ''content'') = Inr (JStr (js ''hello''))"
    by (simp add: upload_job_def js_def)
  note th = audit_failure_not_propagated[where env = "demo_env 3", OF h1 h2 h3 h4 h5]
  have r: "requestId upload_job = JStr (js ''r4'')" by (simp add: upload_job_def)
  have l: "length (js ''hello'') = 5" by (simp add: js_def)
  show ?thesis
    using th h2 h3 u c sj r l
    by (simp add: new_connection_def demo_env_def del: run.simps deliver.simps)
qed

text \<open>
  C6 (an unknown method). A job in execution whose method is not registered: the
  dispatch throws \<^verbatim>\<open>Unknown method: \<close> followed by the method as printed (for a
  string, the string), the worker writes one \<^verbatim>\<open>ERROR\<close> response with that text and the
  job's \<^verbatim>\<open>request_id\<close>, and the connection is neither ended nor destroyed. A valid
  \<^verbatim>\<open>PING\<close> arriving next on the same connection is admitted, executed and answered
  \<^verbatim>\<open>OK\<close>.
\<close>

theorem unknown_method_isolated:
  assumes "workers s = [AwaitTimer j]" and "processingQueue s = []"
    and "to_string (Number_toString env1) (rpc_method j) = Inr name"
    and "list_all (\<lambda>m. rpc_method j \<noteq> JStr m) RPC_METHODS"
    and "socket j = c" and "\<not> destroyed (sockets s c)"
    and "take_messages (buffer (sockets s c)) data = ([raw], rest)" and "trim raw \<noteq> []"
    and "parseMessage env2 raw = Inr msg"
    and "get2 msg (js ''header'') (js ''method'') = Inr (JStr PING)"
    and "get2 msg (js ''header'') (js ''auth_token'') = Inr (JStr AUTH_TOKEN)"
    and "get msg (js ''body'') = Inr body"
    and "get2 msg (js ''header'') (js ''request_id'') = Inr rid"
  shows "executeMethod env1 (startTime s) (rpc_method j) (payload j)
           = Settled (Inl (Error (js ''Unknown method: '' @ name)))
       \<and> written (sockets (deliver env1 (TimerFired 0) s) c) =
           written (sockets s c) @
             [\<lparr>status = js ''ERROR'', result = JStr (js ''Unknown method: '' @ name),
               request_id = (if requestId j = JUndefined then JNull else requestId j),
               timestamp = Date_now env1\<rparr>]
       \<and> ended (sockets (deliver env1 (TimerFired 0) s) c) = ended (sockets s c)
       \<and> \<not> destroyed (sockets (deliver env1 (TimerFired 0) s) c)
       \<and> written (sockets (run [(env1, TimerFired 0), (env2, Data c data), (env3, TimerFired 0)] s) c) =
           written (sockets s c) @
             [\<lparr>status = js ''ERROR'', result = JStr (js ''Unknown method: '' @ name),
               request_id = (if requestId j = JUndefined then JNull else requestId j),
               timestamp = Date_now env1\<rparr>,
              \<lparr>status = js ''OK'',
               result = JObj [(js ''pong'', JBool True),
                              (js ''serverTime'', JNum (of_nat (Date_now env3))),
                              (js ''uptime'',
                               JNum ((of_nat (Date_now env3) - of_nat (startTime s)) / 1000))],
               request_id = (if rid = JUndefined then JNull else rid),
               timestamp = Date_now env3\<rparr>]"
proof -
  let ?err = "createResponse env1 (js ''ERROR'') (JStr (js ''Unknown method: '' @ name)) (requestId j)"
  let ?s1 = "ready_for_next (socket_write c ?err
               ((remove_worker 0 s)\<lparr>totalErrors := totalErrors s + 1\<rparr>))"
  have ex: "executeMethod env1 (startTime s) (rpc_method j) (payload j)
           = Settled (Inl (Error (js ''Unknown method: '' @ name)))"
    using assms(3,4) by (rule executeMethod_unknown)
  have ts: "to_string (Number_toString env1) (rpc_method j) = Inr name" by (rule assms(3))
  have op: "\<not> destroyed (sockets (remove_worker 0 s) (socket j))"
    using assms(5,6) by (simp add: remove_worker_def)
  have s1: "deliver env1 (TimerFired 0) s = ?s1"
    using assms(1,5) ex settle_error_open[OF ts op]
    by (simp add: after_timer_def remove_worker_def)
  let ?j2 = "\<lparr>rpc_method = JStr PING, payload = body, requestId = rid, socket = c,
              receivedAt = Date_now env2\<rparr>"
  let ?s1' = "?s1\<lparr>totalReceived := totalReceived ?s1 + 1,
          sockets := (sockets ?s1)(c := (sockets ?s1 c)\<lparr>buffer := rest\<rparr>)\<rparr>"
  have buf: "buffer (sockets ?s1 c) = buffer (sockets s c)"
    by (simp add: ready_for_next_def socket_write_def remove_worker_def)
  have tsp: "to_string (Number_toString env2) (JStr PING) = Inr PING" by simp
  have hm: "handle_message env2 c raw ?s1' =
     (processQueue env2 (?s1'\<lparr>processingQueue := processingQueue ?s1' @ [?j2],
                               history := history ?s1' @ [Push ?j2]\<rparr>), False)"
    using try_message_admitted[OF assms(9,10) tsp assms(11,12,13), of c ?s1']
    by (simp add: handle_message_def)
  have s2: "deliver env2 (Data c data) ?s1 = processQueue env2
       (?s1'\<lparr>processingQueue := processingQueue ?s1' @ [?j2],
              history := history ?s1' @ [Push ?j2]\<rparr>)"
    using on_data_one_message[of ?s1 c data raw rest env2] assms(6,7,8) buf hm
    by (simp add: ready_for_next_def socket_write_def remove_worker_def)
  let ?s2 = "?s1'\<lparr>processingQueue := [], history := history ?s1' @ [Push ?j2, Shift ?j2],
                  isProcessing := True, workers := [AwaitTimer ?j2]\<rparr>"
  have s2': "deliver env2 (Data c data) ?s1 = ?s2"
    unfolding s2 using assms(1,2)
    by (simp add: processQueue_def Let_def ready_for_next_def socket_write_def remove_worker_def)
  have op2: "\<not> destroyed (sockets (remove_worker 0 ?s2) (socket ?j2))"
    using assms(6) by (simp add: remove_worker_def ready_for_next_def socket_write_def)
  have ts2: "to_string (Number_toString env3) (rpc_method ?j2) = Inr PING" by simp
  have s3: "deliver env3 (TimerFired 0) ?s2 =
      ready_for_next ((socket_write c (createResponse env3 (js ''OK'')
         (JObj [(js ''pong'', JBool True),
               (js ''serverTime'', JNum (of_nat (Date_now env3))),
               (js ''uptime'', JNum ((of_nat (Date_now env3) - of_nat (startTime s)) / 1000))]) rid)
         (remove_worker 0 ?s2))\<lparr>totalProcessed := totalProcessed (remove_worker 0 ?s2) + 1\<rparr>)"
    using settle_ok_open[OF ts2 op2] executeMethod_ping[of env3 "startTime s" body]
    by (simp add: after_timer_def ready_for_next_def socket_write_def remove_worker_def)
  have r: "run [(env1, TimerFired 0), (env2, Data c data), (env3, TimerFired 0)] s
        = deliver env3 (TimerFired 0) ?s2"
    using s1 s2' by simp
  have w1: "written (sockets (deliver env1 (TimerFired 0) s) c) = written (sockets s c) @ [?err]"
    unfolding s1 by (simp add: ready_for_next_def socket_write_def remove_worker_def)
  have e1: "ended (sockets (deliver env1 (TimerFired 0) s) c) = ended (sockets s c)"
    unfolding s1 by (simp add: ready_for_next_def socket_write_def remove_worker_def)
  have d1: "\<not> destroyed (sockets (deliver env1 (TimerFired 0) s) c)"
    unfolding s1 using assms(6) by (simp add: ready_for_next_def socket_write_def remove_worker_def)
  have w3: "written (sockets (run [(env1, TimerFired 0), (env2, Data c data), (env3, TimerFired 0)] s) c)
     = written (sockets s c) @ [?err, createResponse env3 (js ''OK'')
         (JObj [(js ''pong'', JBool True),
               (js ''serverTime'', JNum (of_nat (Date_now env3))),
               (js ''uptime'', JNum ((of_nat (Date_now env3) - of_nat (startTime s)) / 1000))]) rid]"
    unfolding r s3 by (simp add: ready_for_next_def socket_write_def remove_worker_def)
  show ?thesis using ex w1 e1 d1 w3 by (simp add: createResponse_def)
qed

text \<open>
  The method \<^verbatim>\<open>NOPE\<close>, then a \<^verbatim>\<open>PING\<close> on the same connection.
\<close>

theorem unknown_method_isolated_witness:
  "workers (run [(demo_env 1, Data 0 (ascii nope_text @ [0x0A]))] (initial 0))
     = [AwaitTimer nope_job]
   \<and> list_all (\<lambda>m. rpc_method nope_job \<noteq> JStr m) RPC_METHODS
   \<and> written (sockets
        (run [(demo_env 2, TimerFired 0), (demo_env 3, Data 0 (ascii ping_text @ [0x0A])),
              (demo_env 4, TimerFired 0)]
          (run [(demo_env 1, Data 0 (ascii nope_text @ [0x0A]))] (initial 0))) 0)
     = [\<lparr>status = js ''ERROR'', result = JStr (js ''Unknown method: NOPE''),
         request_id = JStr (js ''r2''), timestamp = 2\<rparr>,
        \<lparr>status = js ''OK'',
         result = JObj [(js ''pong'', JBool True), (js ''serverTime'', JNum 4),
                        (js ''uptime'', JNum (4 / 1000))],
         request_id = JStr (js ''r1''), timestamp = 4\<rparr>]"
proof -
  let ?s = "run [(demo_env 1, Data 0 (ascii nope_text @ [0x0A]))] (initial 0)"
  have w: "workers ?s = [AwaitTimer nope_job]" and q: "processingQueue ?s = []"
    and st: "startTime ?s = 0" and c: "sockets ?s 0 = new_connection"
    using nope_admitted by blast+
  have m: "to_string (Number_toString (demo_env 2)) (rpc_method nope_job) = Inr (js ''NOPE'')"
    by (simp add: nope_job_def)
  have u: "list_all (\<lambda>m. rpc_method nope_job \<noteq> JStr m) RPC_METHODS"
    by (simp add: nope_job_def RPC_METHODS_def UPLOAD_FILE_def LIST_FILES_def DELETE_FILE_def
        CHECK_BALANCE_def PING_def js_def)
  have sj: "socket nope_job = 0" by (simp add: nope_job_def)
  have op: "\<not> destroyed (sockets ?s 0)" using c by (simp add: new_connection_def)
  have tk: "take_messages (buffer (sockets ?s 0)) (ascii ping_text @ [0x0A]) = ([js ping_text], [])"
    using c ping_taken by (simp add: new_connection_def)
  have tr: "trim (js ping_text) \<noteq> []" by (simp add: demo_trim) (simp add: js_def demo_texts)
  have g1: "get2 (request ''SECRET_123'' ''PING'' ''r1'' (JObj [])) (js ''header'') (js ''method'')
      = Inr (JStr PING)"
    by (simp add: request_fields PING_def)
  have g2: "get2 (request ''SECRET_123'' ''PING'' ''r1'' (JObj [])) (js ''header'') (js ''auth_token'')
      = Inr (JStr AUTH_TOKEN)"
    by (simp add: request_fields AUTH_TOKEN_def)
  note th = unknown_method_isolated[where ?env1.0 = "demo_env 2" and ?env2.0 = "demo_env 3"
      and ?env3.0 = "demo_env 4",
      OF w q m u sj op tk tr demo_parsed(1) g1 g2 request_fields(4) request_fields(3)]
  have r: "requestId nope_job = JStr (js ''r2'')" by (simp add: nope_job_def)
  have t: "js ''Unknown method: '' @ js ''NOPE'' = js ''Unknown method: NOPE''"
    by (simp add: js_def)
  show ?thesis
    using th w u c st r t by (simp add: new_connection_def demo_env_def del: run.simps deliver.simps)
qed

text \<open>
  A destroyed socket: settling a job changes no socket, and the rest of the state
  changes as it does when the socket is open.
\<close>

lemma on_error_closed:
  assumes "destroyed (sockets s (socket j))"
  shows "sockets (on_error env j e s) = sockets s"
  using assms by (simp add: on_error_def ready_for_next_def Let_def split: sum.splits)

lemma settle_closed:
  assumes "destroyed (sockets s (socket j))"
  shows "sockets (settle env j r s) = sockets s"
  using assms by (simp add: settle_def on_error_closed ready_for_next_def Let_def split: sum.splits)

lemma inner_on_error:
  "inner s = inner t \<Longrightarrow> inner (on_error env j e s) = inner (on_error env j e t)"
  by (simp add: inner_def on_error_def ready_for_next_def socket_write_def Let_def
      split: sum.splits)

lemma inner_settle:
  assumes "inner s = inner t"
  shows "inner (settle env j r s) = inner (settle env j r t)"
  using assms
  by (auto simp: inner_def settle_def on_error_def ready_for_next_def socket_write_def Let_def
      split: sum.splits)

text \<open>
  C8 (a closed connection suppresses the write, nothing else). Let the connection of a
  job in execution be destroyed before the job's next step (its timer, or the settlement
  of its mutation). The step then changes no socket, so nothing is written, and
  everything else (the audit store, the counters, the queue, the workers, the flag)
  becomes what it becomes when the connection is open: the handler and its audit write
  run all the same, and the job is not run again. Destroying a connection changes neither
  the queue nor the workers, and the next job is taken from the queue as before.
\<close>

theorem closed_connection_no_cancel:
  assumes "i < length (workers s)" and "socket (job_of (workers s ! i)) = c"
    and "ev = TimerFired i \<or> ev = MutationSettled i ok"
  shows "sockets (deliver env ev (deliver env0 (SocketClosed c) s))
           = sockets (deliver env0 (SocketClosed c) s)
       \<and> inner (deliver env ev (deliver env0 (SocketClosed c) s)) = inner (deliver env ev s)
       \<and> inner (deliver env0 (SocketClosed c) s) = inner s
       \<and> inner (deliver env Immediate (deliver env0 (SocketClosed c) s))
           = inner (deliver env Immediate s)"
proof -
  let ?d = "socket_destroy c s"
  have i0: "inner ?d = inner s" by (simp add: inner_def socket_destroy_def)
  have wk: "workers ?d = workers s" by (simp add: socket_destroy_def)
  have st: "startTime ?d = startTime s" by (simp add: socket_destroy_def)
  have rm: "inner (remove_worker i x) = inner (remove_worker i y)" if "inner x = inner y" for x y
    using that by (simp add: inner_def remove_worker_def)
  have up: "inner (x\<lparr>uploads := uploads x @ [a]\<rparr>) = inner (y\<lparr>uploads := uploads y @ [a]\<rparr>)"
    if "inner x = inner y" for x y a
    using that by (simp add: inner_def)
  have im: "inner (deliver env Immediate ?d) = inner (deliver env Immediate s)"
    by (auto simp: inner_def socket_destroy_def processQueue_def Let_def
        split: list.splits sum.splits)
  have ww: "inner (x\<lparr>workers := w\<rparr>) = inner (y\<lparr>workers := w\<rparr>)"
    if "inner x = inner y" for x y w
    using that by (simp add: inner_def)
  show ?thesis
  proof (cases "workers s ! i")
    case (AwaitTimer j)
    then have c: "socket j = c" using assms(2) by simp
    have dj: "destroyed (sockets (remove_worker i ?d) (socket j))"
      using c by (simp add: remove_worker_def socket_destroy_def)
    show ?thesis
    proof (cases "ev = TimerFired i")
      case True
      show ?thesis
      proof (cases "executeMethod env (startTime s) (rpc_method j) (payload j)")
        case (Settled r)
        have "sockets (settle env j r (remove_worker i ?d)) = sockets ?d"
          using settle_closed[OF dj] by (simp add: remove_worker_def)
        moreover have "inner (settle env j r (remove_worker i ?d))
                     = inner (settle env j r (remove_worker i s))"
          by (rule inner_settle[OF rm[OF i0]])
        ultimately show ?thesis
          using True AwaitTimer assms(1) Settled wk st i0 im by (simp add: after_timer_def)
      next
        case (Await args)
        then show ?thesis
          using True AwaitTimer assms(1) wk st i0 im ww[OF i0] by (simp add: after_timer_def)
      qed
    next
      case False
      then have "ev = MutationSettled i ok" using assms(3) by simp
      then show ?thesis using AwaitTimer assms(1) wk i0 im by simp
    qed
  next
    case (AwaitMutation j args)
    then have c: "socket j = c" using assms(2) by simp
    show ?thesis
    proof (cases "ev = TimerFired i")
      case True
      then show ?thesis using AwaitMutation assms(1) wk i0 im by simp
    next
      case False
      then have ev: "ev = MutationSettled i ok" using assms(3) by simp
      let ?x = "remove_worker i (if ok then ?d\<lparr>uploads := uploads ?d @ [args]\<rparr> else ?d)"
      let ?y = "remove_worker i (if ok then s\<lparr>uploads := uploads s @ [args]\<rparr> else s)"
      have dj: "destroyed (sockets ?x (socket j))"
        using c by (simp add: remove_worker_def socket_destroy_def)
      have ixy: "inner ?x = inner ?y"
        using rm[OF i0] rm[OF up[OF i0]] by simp
      have "sockets (settle env j (upload_result env (payload j)) ?x) = sockets ?d"
        using settle_closed[OF dj] by (simp add: remove_worker_def)
      moreover have "inner (settle env j (upload_result env (payload j)) ?x)
                   = inner (settle env j (upload_result env (payload j)) ?y)"
        by (rule inner_settle[OF ixy])
      ultimately show ?thesis
        using ev AwaitMutation assms(1) wk i0 im by (simp add: after_mutation_def)
    qed
  qed
qed

text \<open>
  The upload, its connection destroyed while the mutation is awaited: the audit record is
  stored all the same.
\<close>

theorem closed_connection_no_cancel_witness:
  "0 < length (workers (run [(demo_env 1, Data 0 (ascii upload_text @ [0x0A])),
                             (demo_env 2, TimerFired 0)] (initial 0)))
   \<and> socket (job_of (workers (run [(demo_env 1, Data 0 (ascii upload_text @ [0x0A])),
                                    (demo_env 2, TimerFired 0)] (initial 0)) ! 0)) = 0
   \<and> sockets (deliver (demo_env 4) (MutationSettled 0 True)
               (deliver (demo_env 3) (SocketClosed 0)
                 (run [(demo_env 1, Data 0 (ascii upload_text @ [0x0A])),
                       (demo_env 2, TimerFired 0)] (initial 0))))
       = sockets (deliver (demo_env 3) (SocketClosed 0)
                   (run [(demo_env 1, Data 0 (ascii upload_text @ [0x0A])),
                         (demo_env 2, TimerFired 0)] (initial 0)))
   \<and> inner (deliver (demo_env 4) (MutationSettled 0 True)
               (deliver (demo_env 3) (SocketClosed 0)
                 (run [(demo_env 1, Data 0 (ascii upload_text @ [0x0A])),
                       (demo_env 2, TimerFired 0)] (initial 0))))
       = inner (deliver (demo_env 4) (MutationSettled 0 True)
                 (run [(demo_env 1, Data 0 (ascii upload_text @ [0x0A])),
                       (demo_env 2, TimerFired 0)] (initial 0)))
   \<and> uploads (deliver (demo_env 4) (MutationSettled 0 True)
               (run [(demo_env 1, Data 0 (ascii upload_text @ [0x0A])),
                     (demo_env 2, TimerFired 0)] (initial 0)))
       = [JObj [(js ''filename'', JStr (js ''a.txt'')), (js ''fileSize'', JNum 5),
                (js ''contentPreview'', JStr (js ''hello'')),
                (js ''status'', JStr (js ''completed''))]]"
proof -
  let ?s = "run [(demo_env 1, Data 0 (ascii upload_text @ [0x0A])), (demo_env 2, TimerFired 0)]
              (initial 0)"
  let ?args = "JObj [(js ''filename'', JStr (js ''a.txt'')), (js ''fileSize'', JNum 5),
                 (js ''contentPreview'', JStr (js ''hello'')),
                 (js ''status'', JStr (js ''completed''))]"
  have w: "workers ?s = [AwaitMutation upload_job ?args]" and u: "uploads ?s = []"
    using upload_awaiting by blast+
  have h1: "0 < length (workers ?s)" using w by simp
  have h2: "socket (job_of (workers ?s ! 0)) = 0" using w by (simp add: upload_job_def)
  have h3: "MutationSettled 0 True = TimerFired 0 \<or> MutationSettled 0 True = MutationSettled 0 True"
    by simp
  note th = closed_connection_no_cancel[where env = "demo_env 4" and ?env0.0 = "demo_env 3",
      OF h1 h2 h3]
  have a: "uploads (deliver (demo_env 4) (MutationSettled 0 True) ?s) = [?args]"
    using w u
    by (simp add: after_mutation_def settle_def on_error_def ready_for_next_def socket_write_def
        remove_worker_def Let_def upload_result_def and_then_def upload_job_def
        split: sum.splits)
  show ?thesis using h1 h2 th a by blast
qed

end
